theory Spec2Isabelle
  imports Main "HOL-Library.Word" "HOL-Library.Sublist"
begin

unbundle bit_operations_syntax

section \<open>Go values shared by the producer, the consumer and the test server\<close>

type_synonym byte = "8 word"

text \<open>
  Go's \<open>error\<close> interface values that the code creates or compares with. A nil \<open>error\<close> is
  \<open>None\<close> of \<open>go_error option\<close>. \<open>withMessage e m\<close> is the value that \<open>errors.Wrap(e, m)\<close> of
  github.com/pkg/errors builds for a non-nil \<open>e\<close>; \<open>PathError\<close> is what \<open>os.File\<close> wraps a
  failed system call in.
\<close>

datatype go_error =
    io_EOF
  | os_ErrInvalid
  | errorString string
  | PathError string go_error
  | withMessage go_error string

text \<open>
  \<open>errors.Wrap\<close> of github.com/pkg/errors: "If err is nil, Wrap returns nil."
\<close>

fun errors_Wrap :: "go_error option \<Rightarrow> string \<Rightarrow> go_error option" where
  "errors_Wrap None message = None"
| "errors_Wrap (Some err) message = Some (withMessage err message)"

section \<open>The wire frames (proto.ResourceChunk and its oneof payload)\<close>

record ResourceHeader =
  SourcePath :: string
  TargetPath :: string
  FileMode :: "64 word"
  IsDir :: bool
  TargetUser :: string
  TargetWorkdir :: string
  Id :: string

record ResourceContents =
  Chunk :: "byte list"
  Checksum :: "byte list"
  chunk_Id :: string

text \<open>
  The payload of a \<open>proto.ResourceChunk\<close>: one of header, chunk and eof, or no payload set
  (\<open>GetPayload()\<close> returns nil, and no case of the consumer's type switch matches).
\<close>

datatype ResourceChunk =
    ResourceChunk_Header ResourceHeader
  | ResourceChunk_Chunk ResourceContents
  | ResourceChunk_Eof string
  | ResourceChunk_unset

section \<open>The Resource Consumer: \<open>(*testClient).Resource\<close>\<close>

record testResolvedResource =
  contents :: "byte list"
  isDir :: bool
  sourcePath :: string
  targetMode :: "32 word"
  targetPath :: string
  targetUser :: string
  targetWorkdir :: string

text \<open>
  What the goroutine sends on \<open>chanResources\<close>, a \<open>chan interface{}\<close>: a nil interface value,
  an error, or the pointer \<open>currentResource\<close> (\<open>None\<close> when that pointer is nil, which it is
  before the first header). A resource is recorded with the contents it has when it is sent.
\<close>

datatype chan_item =
    item_nil
  | item_error go_error
  | item_resource "testResolvedResource option"

fun send_error :: "go_error option \<Rightarrow> chan_item" where
  "send_error None = item_nil"
| "send_error (Some e) = item_error e"

text \<open>How the goroutine ends: it closes the channel, or it dereferences a nil pointer.\<close>

datatype goroutine_end = chan_closed | nil_dereference

text \<open>
  One element per call of \<open>resourceClient.Recv()\<close>: the response (nil is \<open>None\<close>) and the
  error. When the list is used up the stream has ended and \<open>Recv\<close> returns \<open>(nil, io.EOF)\<close>.
\<close>

type_synonym recv = "ResourceChunk option \<times> go_error option"

definition new_resource :: "ResourceHeader \<Rightarrow> testResolvedResource" where
  "new_resource h =
     \<lparr> contents = [], isDir = IsDir h, sourcePath = SourcePath h,
       targetMode = ucast (FileMode h), targetPath = TargetPath h,
       targetUser = TargetUser h, targetWorkdir = TargetWorkdir h \<rparr>"

text \<open>
  The loop of the goroutine in \<open>Resource\<close>, lines 281 to 316. \<open>Sum256\<close> is \<open>sha256.Sum256\<close>
  of the Go standard library, a parameter here. The result is what was sent on the channel,
  in order, and how the goroutine ended.
\<close>

fun Resource_loop ::
  "(byte list \<Rightarrow> byte list) \<Rightarrow> testResolvedResource option \<Rightarrow> recv list
     \<Rightarrow> chan_item list \<times> goroutine_end" where
  "Resource_loop Sum256 currentResource [] = ([], chan_closed)"
| "Resource_loop Sum256 currentResource ((None, err) # rest) = ([], chan_closed)"
| "Resource_loop Sum256 currentResource ((Some response, Some err) # rest) =
     ([send_error (errors_Wrap (Some err) ''failed reading chunk'')], chan_closed)"
| "Resource_loop Sum256 currentResource ((Some response, None) # rest) =
     (case response of
        ResourceChunk_Eof i \<Rightarrow>
          (case Resource_loop Sum256 currentResource rest of
             (sent, e) \<Rightarrow> (item_resource currentResource # sent, e))
      | ResourceChunk_Chunk c \<Rightarrow>
          if Sum256 (Chunk c) \<noteq> Checksum c
          then ([send_error (errors_Wrap None ''chunk checksum did not match'')], chan_closed)
          else (case currentResource of
                  None \<Rightarrow> ([], nil_dereference)
                | Some r \<Rightarrow>
                    Resource_loop Sum256 (Some (r\<lparr>contents := contents r @ Chunk c\<rparr>)) rest)
      | ResourceChunk_Header h \<Rightarrow> Resource_loop Sum256 (Some (new_resource h)) rest
      | ResourceChunk_unset \<Rightarrow> Resource_loop Sum256 currentResource rest)"

definition Resource :: "(byte list \<Rightarrow> byte list) \<Rightarrow> recv list \<Rightarrow> chan_item list \<times> goroutine_end" where
  "Resource Sum256 stream = Resource_loop Sum256 None stream"

text \<open>A frame with its id replaced; the consumer's view of a stream under other ids.\<close>

fun with_id :: "string \<Rightarrow> ResourceChunk \<Rightarrow> ResourceChunk" where
  "with_id i (ResourceChunk_Header h) = ResourceChunk_Header (h\<lparr>Id := i\<rparr>)"
| "with_id i (ResourceChunk_Chunk c) = ResourceChunk_Chunk (c\<lparr>chunk_Id := i\<rparr>)"
| "with_id i (ResourceChunk_Eof j) = ResourceChunk_Eof i"
| "with_id i ResourceChunk_unset = ResourceChunk_unset"

fun recv_with_id :: "string \<Rightarrow> recv \<Rightarrow> recv" where
  "recv_with_id i (response, err) = (map_option (with_id i) response, err)"

section \<open>The Resource Producer: \<open>(*grpcDirectoryResource).WalkResource\<close>\<close>

text \<open>
  The fields of \<open>grpcDirectoryResource\<close> that \<open>WalkResource\<close> reads (\<open>targetWorkdir\<close> and
  \<open>targetUser\<close> are the \<open>Value\<close> strings of \<open>commands.Workdir\<close> and \<open>commands.User\<close>).
\<close>

record grpcDirectoryResource =
  resolved :: string
  safeBufferSize :: int
  drr_targetMode :: "32 word"
  drr_sourcePath :: string
  drr_targetPath :: string
  drr_targetWorkdir :: string
  drr_targetUser :: string

text \<open>
  Functions of libraries the walk calls, as parameters: \<open>filepath.Join\<close> of two elements,
  \<open>sha256.Sum256\<close>, and \<open>uuid.NewV4\<close> as the string of the k-th identifier generated during
  the walk (\<open>None\<close> when the generator fails, on which \<open>uuid.Must\<close> panics).
\<close>

record go_lib =
  filepath_Join :: "string \<Rightarrow> string \<Rightarrow> string"
  sha256_Sum256 :: "byte list \<Rightarrow> byte list"
  uuid_NewV4 :: "nat \<Rightarrow> string option"

text \<open>\<open>strings.TrimPrefix\<close>.\<close>

definition TrimPrefix :: "string \<Rightarrow> string \<Rightarrow> string" where
  "TrimPrefix s p = (if prefix p s then drop (length p) s else s)"

text \<open>
  An \<open>*os.File\<close> as \<open>os.Open\<close> returns it. \<open>nil_File\<close> is the nil pointer of a failed open.
  An open file holds the bytes not yet read and what the next system calls will do: fail
  with an error, or deliver at most \<open>Suc k\<close> bytes; after the script every read is full.
\<close>

datatype read_event = fault go_error | short nat

datatype os_File = nil_File | File "byte list" "read_event list"

text \<open>
  \<open>(*os.File).Read\<close> into a buffer of \<open>n\<close> bytes: the bytes read (\<open>buffer[0:readBytes]\<close>),
  the error, and the file afterwards. A nil file gives \<open>os.ErrInvalid\<close>, a buffer of length
  zero gives \<open>(0, nil)\<close>, a failed system call gives no bytes and a \<open>*PathError\<close>, and a read
  of zero bytes is \<open>io.EOF\<close>.
\<close>

fun File_Read :: "os_File \<Rightarrow> nat \<Rightarrow> (byte list \<times> go_error option) \<times> os_File" where
  "File_Read nil_File n = (([], Some os_ErrInvalid), nil_File)"
| "File_Read (File rem script) n =
     (if n = 0 then (([], None), File rem script)
      else (case script of
              fault e # script' \<Rightarrow> (([], Some (PathError ''read'' e)), File rem script')
            | short k # script' \<Rightarrow>
                if rem = [] then (([], Some io_EOF), File rem script')
                else ((take (min n (Suc k)) rem, None), File (drop (min n (Suc k)) rem) script')
            | [] \<Rightarrow>
                if rem = [] then (([], Some io_EOF), File rem [])
                else ((take n rem, None), File (drop n rem) [])))"

text \<open>
  A filesystem entry as \<open>filepath.WalkDir\<close> meets it: the result of \<open>d.Info()\<close> (the mode on
  success), and for a file the result of \<open>os.Open\<close>, for a directory the result of
  \<open>os.ReadDir\<close> (the entries it returned, by name and in its order, and its error).
\<close>

datatype fs_node =
    file_node "go_error + 32 word" os_File
  | dir_node "go_error + 32 word" "go_error option" "(string \<times> fs_node) list"

fun Info :: "fs_node \<Rightarrow> go_error + 32 word" where
  "Info (file_node i f) = i"
| "Info (dir_node i e ds) = i"

text \<open>
  How far the walking goroutine got: the callback or the walk returned (with its error),
  it panicked, or it is still inside the read loop when the fuel ran out.
\<close>

datatype walk_status = returned "go_error option" | panicked | running

definition remainingPath :: "grpcDirectoryResource \<Rightarrow> string \<Rightarrow> string" where
  "remainingPath drr path = TrimPrefix (TrimPrefix path (resolved drr)) ''/''"

text \<open>The header of an entry; \<open>Perm()\<close> keeps the bits of octal 0777, that is 511.\<close>

definition header_frame ::
  "go_lib \<Rightarrow> grpcDirectoryResource \<Rightarrow> string \<Rightarrow> 32 word \<Rightarrow> bool \<Rightarrow> string \<Rightarrow> ResourceChunk" where
  "header_frame L drr path mode dir resourceUUID =
     ResourceChunk_Header
       \<lparr> SourcePath = filepath_Join L (drr_sourcePath drr) (remainingPath drr path),
         TargetPath = filepath_Join L (drr_targetPath drr) (remainingPath drr path),
         FileMode = ucast (mode AND 511),
         IsDir = dir,
         TargetUser = drr_targetUser drr,
         TargetWorkdir = drr_targetWorkdir drr,
         Id = resourceUUID \<rparr>"

text \<open>A chunk frame whose payload is \<open>payload\<close> and whose checksum is the hash of it.\<close>

definition chunk_frame :: "(byte list \<Rightarrow> byte list) \<Rightarrow> string \<Rightarrow> byte list \<Rightarrow> ResourceChunk" where
  "chunk_frame Sum256 resourceUUID payload =
     ResourceChunk_Chunk \<lparr> Chunk = payload, Checksum = Sum256 payload, chunk_Id = resourceUUID \<rparr>"

text \<open>
  \<open>reader.Read(buffer)\<close> on the one buffer of a file: the number of bytes read, the error,
  the file afterwards, and the buffer afterwards, which holds the bytes read in its first
  places and is unchanged beyond them.
\<close>

definition reader_Read ::
  "os_File \<Rightarrow> byte list \<Rightarrow> (nat \<times> go_error option) \<times> os_File \<times> byte list" where
  "reader_Read reader buffer =
     (case File_Read reader (length buffer) of
        ((bytes, err), reader') \<Rightarrow>
          ((length bytes, err), reader', bytes @ drop (length bytes) buffer))"

text \<open>
  The bytes the receiver of a chunk frame finds in its payload. The frame holds the slice
  \<open>buffer[0:readBytes]\<close>, not a copy, and once the frame is handed over on the unbuffered
  channel the goroutine goes on to the next \<open>Read\<close> into the same buffer. \<open>late\<close> is the number
  of places of the buffer which that \<open>Read\<close> has already written when the receiver reads the
  payload: 0 when the receiver is first. (The receiver is taken to read a frame before it
  receives the next, so that no later \<open>Read\<close> is in its way.)
\<close>

definition received :: "nat \<Rightarrow> nat \<Rightarrow> byte list \<Rightarrow> byte list \<Rightarrow> byte list" where
  "received late readBytes buffer next_buffer =
     take readBytes (take late next_buffer @ drop late buffer)"

text \<open>
  The read loop of a file, lines 113 to 137, with the frames it sends on \<open>chanChunks\<close> as
  their receiver reads them: the payload of the \<open>j\<close>-th chunk frame is read when \<open>late j\<close>
  places of the buffer have been written again, its checksum is the hash of the bytes as
  they were read from the file. The loop has no bound of its own; \<open>fuel\<close> is the number of
  iterations observed.
\<close>

fun read_loop ::
  "(byte list \<Rightarrow> byte list) \<Rightarrow> (nat \<Rightarrow> nat) \<Rightarrow> nat \<Rightarrow> string \<Rightarrow> os_File \<Rightarrow> byte list \<Rightarrow> nat
     \<Rightarrow> ResourceChunk option list \<times> walk_status" where
  "read_loop Sum256 late 0 resourceUUID reader buffer j = ([], running)"
| "read_loop Sum256 late (Suc fuel) resourceUUID reader buffer j =
     (case reader_Read reader buffer of
        ((readBytes, err), reader', buffer') \<Rightarrow>
          if readBytes = 0 \<and> err = Some io_EOF
          then ([Some (ResourceChunk_Eof resourceUUID)], returned None)
          else (case read_loop Sum256 late fuel resourceUUID reader' buffer' (Suc j) of
                  (sent, st) \<Rightarrow>
                    (Some (ResourceChunk_Chunk
                       \<lparr> Chunk = received (late j) readBytes buffer'
                                   (snd (snd (reader_Read reader' buffer'))),
                         Checksum = Sum256 (take readBytes buffer'),
                         chunk_Id = resourceUUID \<rparr>) # sent, st)))"

text \<open>
  The callback given to \<open>filepath.WalkDir\<close>, lines 57 to 140, called for the entry \<open>d\<close> at
  \<open>path\<close> when \<open>ctr\<close> identifiers have been generated: the frames sent, the number of
  identifiers generated afterwards, and how the call ended. \<open>make\<close> gives a buffer of zeros
  and panics on a negative length. \<open>late ctr\<close> is how late the receiver reads the chunk
  frames of this entry.
\<close>

fun walkFn ::
  "go_lib \<Rightarrow> grpcDirectoryResource \<Rightarrow> (nat \<Rightarrow> nat \<Rightarrow> nat) \<Rightarrow> nat \<Rightarrow> string \<Rightarrow> fs_node \<Rightarrow> nat
     \<Rightarrow> ResourceChunk option list \<times> nat \<times> walk_status" where
  "walkFn L drr late fuel path d ctr =
     (case Info d of
        Inl err \<Rightarrow> ([], ctr, returned (Some err))
      | Inr mode \<Rightarrow>
          (case uuid_NewV4 L ctr of
             None \<Rightarrow> ([], Suc ctr, panicked)
           | Some resourceUUID \<Rightarrow>
               (case d of
                  dir_node i e ds \<Rightarrow>
                    ([Some (header_frame L drr path mode True resourceUUID),
                      Some (ResourceChunk_Eof resourceUUID)], Suc ctr, returned None)
                | file_node i reader \<Rightarrow>
                    if safeBufferSize drr < 0
                    then ([Some (header_frame L drr path mode False resourceUUID)], Suc ctr, panicked)
                    else (case read_loop (sha256_Sum256 L) (late ctr) fuel resourceUUID reader
                                 (replicate (nat (safeBufferSize drr)) 0) 0 of
                            (sent, st) \<Rightarrow>
                              (Some (header_frame L drr path mode False resourceUUID) # sent,
                               Suc ctr, st)))))"

text \<open>
  \<open>walkDir\<close> of path/filepath with this callback: the callback on the entry; for a
  directory, \<open>os.ReadDir\<close>, a second call of the callback when that reported an error, and
  the entries it returned, each at \<open>Join(path, name)\<close>. An error or a panic ends the walk.
\<close>

fun walkDir ::
  "go_lib \<Rightarrow> grpcDirectoryResource \<Rightarrow> (nat \<Rightarrow> nat \<Rightarrow> nat) \<Rightarrow> nat \<Rightarrow> string \<Rightarrow> fs_node \<Rightarrow> nat
     \<Rightarrow> ResourceChunk option list \<times> nat \<times> walk_status"
and walkDir_entries ::
  "go_lib \<Rightarrow> grpcDirectoryResource \<Rightarrow> (nat \<Rightarrow> nat \<Rightarrow> nat) \<Rightarrow> nat \<Rightarrow> string
     \<Rightarrow> (string \<times> fs_node) list \<Rightarrow> nat
     \<Rightarrow> ResourceChunk option list \<times> nat \<times> walk_status" where
  "walkDir L drr late fuel path (file_node i f) ctr =
     walkFn L drr late fuel path (file_node i f) ctr"
| "walkDir L drr late fuel path (dir_node i rderr dirs) ctr =
     (case walkFn L drr late fuel path (dir_node i rderr dirs) ctr of
        (sent, ctr1, returned None) \<Rightarrow>
          (case rderr of
             None \<Rightarrow>
               (case walkDir_entries L drr late fuel path dirs ctr1 of
                  (sent2, ctr2, st) \<Rightarrow> (sent @ sent2, ctr2, st))
           | Some err \<Rightarrow>
               (case walkFn L drr late fuel path (dir_node i rderr dirs) ctr1 of
                  (sent1, ctr2, returned None) \<Rightarrow>
                    (case walkDir_entries L drr late fuel path dirs ctr2 of
                       (sent2, ctr3, st) \<Rightarrow> (sent @ sent1 @ sent2, ctr3, st))
                | (sent1, ctr2, st) \<Rightarrow> (sent @ sent1, ctr2, st)))
      | r \<Rightarrow> r)"
| "walkDir_entries L drr late fuel path [] ctr = ([], ctr, returned None)"
| "walkDir_entries L drr late fuel path ((name, d1) # dirs) ctr =
     (case walkDir L drr late fuel (filepath_Join L path name) d1 ctr of
        (sent, ctr1, returned None) \<Rightarrow>
          (case walkDir_entries L drr late fuel path dirs ctr1 of
             (sent2, ctr2, st) \<Rightarrow> (sent @ sent2, ctr2, st))
      | r \<Rightarrow> r)"

text \<open>
  The goroutine of \<open>WalkResource\<close>: \<open>filepath.WalkDir\<close> on \<open>drr.resolved\<close>, whose \<open>os.Lstat\<close>
  gives \<open>root\<close>, then the nil sentinel (\<open>None\<close>) whatever error the walk returned. When
  \<open>Lstat\<close> fails, \<open>WalkDir\<close> calls the callback with a nil \<open>d\<close>, and \<open>d.Info()\<close> panics.
\<close>

definition WalkResource ::
  "go_lib \<Rightarrow> grpcDirectoryResource \<Rightarrow> (nat \<Rightarrow> nat \<Rightarrow> nat) \<Rightarrow> nat \<Rightarrow> go_error + fs_node
     \<Rightarrow> ResourceChunk option list \<times> walk_status" where
  "WalkResource L drr late fuel root =
     (case root of
        Inl err \<Rightarrow> ([], panicked)
      | Inr d \<Rightarrow>
          (case walkDir L drr late fuel (resolved drr) d 0 of
             (sent, ctr, returned err) \<Rightarrow> (sent @ [None], returned None)
           | (sent, ctr, st) \<Rightarrow> (sent, st)))"

text \<open>
  Modelled from the spec: the server that relays \<open>chanChunks\<close> to the gRPC stream is not
  among the sources. The spec has the frames delivered in order and the stream closed by
  the \<open>StreamEnd\<close> sentinel, so the consumer's \<open>Recv\<close> sees the frames sent before the first
  nil, each with a nil error.
\<close>

fun wire :: "ResourceChunk option list \<Rightarrow> recv list" where
  "wire [] = []"
| "wire (None # sent) = []"
| "wire (Some frame # sent) = (Some frame, None) # wire sent"

section \<open>The Session Orchestrator: \<open>(*testGRPCServerProvider).Start\<close>\<close>

text \<open>
  The fields of \<open>testGRPCServerProvider\<close> the event loop touches. A channel that is only
  ever closed is the flag that it is closed; \<open>chanFailed\<close> is its buffer. \<open>stopRequests\<close>
  counts the goroutines started with \<open>go func() { p.srv.Stop() }()\<close>.
\<close>

record testGRPCServerProvider =
  abortError :: "go_error option"
  stdErrOutput :: "string list"
  stdOutOutput :: "string list"
  success :: bool
  chanAborted_closed :: bool
  chanFailed :: "go_error option list"
  chanFinished_closed :: bool
  chanReady_closed :: bool
  isAbortedClosed :: bool
  stopRequests :: nat

definition NewTestServer :: testGRPCServerProvider where
  "NewTestServer =
     \<lparr> abortError = None, stdErrOutput = [], stdOutOutput = [], success = False,
       chanAborted_closed = False, chanFailed = [], chanFinished_closed = False,
       chanReady_closed = False, isAbortedClosed = False, stopRequests = 0 \<rparr>"

text \<open>
  The case of the \<open>select\<close> that fires in one iteration of the loop: a value received from
  one of the server's channels, or the receive from \<open>p.chanAborted\<close>.
\<close>

datatype event =
    StoppedNotify
  | OnStderr string
  | OnStdout string
  | OnAbort "go_error option"
  | OnSuccess
  | chanAborted

text \<open>
  After an iteration the loop selects again, has left the loop, or has panicked
  (\<open>close\<close> of a closed channel). \<open>cannot_fire\<close>: the case was not ready, which is the
  receive from \<open>p.chanAborted\<close> while that channel is open (nothing is ever sent on it).
\<close>

datatype loop_state =
    selecting testGRPCServerProvider
  | loop_left testGRPCServerProvider
  | close_of_closed_channel testGRPCServerProvider
  | cannot_fire

fun select_case :: "testGRPCServerProvider \<Rightarrow> event \<Rightarrow> loop_state" where
  "select_case p StoppedNotify = loop_left (p\<lparr>chanFinished_closed := True\<rparr>)"
| "select_case p (OnStderr stdErrLine) =
     (if stdErrLine = [] then selecting p
      else selecting (p\<lparr>stdErrOutput := stdErrOutput p @ [stdErrLine]\<rparr>))"
| "select_case p (OnStdout stdOutLine) =
     (if stdOutLine = [] then selecting p
      else selecting (p\<lparr>stdOutOutput := stdOutOutput p @ [stdOutLine]\<rparr>))"
| "select_case p (OnAbort outErr) =
     (if chanAborted_closed p then close_of_closed_channel (p\<lparr>abortError := outErr\<rparr>)
      else selecting (p\<lparr>abortError := outErr, chanAborted_closed := True\<rparr>))"
| "select_case p OnSuccess =
     (if success p then selecting p
      else selecting (p\<lparr>success := True, stopRequests := Suc (stopRequests p)\<rparr>))"
| "select_case p chanAborted =
     (if \<not> chanAborted_closed p then cannot_fire
      else if isAbortedClosed p then selecting p
      else selecting (p\<lparr>isAbortedClosed := True, stopRequests := Suc (stopRequests p)\<rparr>))"

text \<open>The loop of lines 88 to 123 on the cases that fire, in order.\<close>

fun event_loop :: "testGRPCServerProvider \<Rightarrow> event list \<Rightarrow> loop_state" where
  "event_loop p [] = selecting p"
| "event_loop p (e # es) =
     (case select_case p e of
        selecting p' \<Rightarrow> event_loop p' es
      | r \<Rightarrow> r)"

text \<open>
  \<open>Start\<close>: the first \<open>select\<close> on what the server reports (\<open>Inl\<close> the start error, \<open>Inr\<close>
  ready), then the loop. The state of the provider and, after ready, of the loop.
\<close>

definition Start :: "go_error option + unit \<Rightarrow> event list \<Rightarrow> loop_state" where
  "Start started es =
     (case started of
        Inl err \<Rightarrow> loop_left (NewTestServer\<lparr>chanFailed := [err]\<rparr>)
      | Inr ready \<Rightarrow> event_loop (NewTestServer\<lparr>chanReady_closed := True\<rparr>) es)"

text \<open>The provider of a loop state, and the accessors \<open>Aborted\<close> and \<open>Succeeded\<close>.\<close>

fun provider_of :: "loop_state \<Rightarrow> testGRPCServerProvider option" where
  "provider_of (selecting p) = Some p"
| "provider_of (loop_left p) = Some p"
| "provider_of (close_of_closed_channel p) = Some p"
| "provider_of cannot_fire = None"

fun panics :: "loop_state \<Rightarrow> bool" where
  "panics (close_of_closed_channel p) = True"
| "panics r = False"

section \<open>The Command Decoder: \<open>(*testClient).Commands\<close>\<close>

text \<open>
  \<open>commands.VMInitSerializableCommand\<close> as the decoder builds it; the structs \<open>commands.Add\<close>,
  \<open>commands.Copy\<close> and \<open>commands.Run\<close> are type parameters.
\<close>

datatype ('a, 'c, 'r) VMInitSerializableCommand = Add 'a | Copy 'c | Run 'r

text \<open>
  The library functions the decoder calls, as parameters: \<open>json.Unmarshal\<close> into a
  \<open>map[string]interface{}\<close>, \<open>fmt.Sprintf("%s", v)\<close>, and \<open>mapstructure.Decode\<close> onto each of
  the three structs.
\<close>

record ('v, 'a, 'c, 'r) decode_lib =
  json_Unmarshal :: "string \<Rightarrow> go_error + (string \<rightharpoonup> 'v)"
  Sprintf_s :: "'v \<Rightarrow> string"
  Decode_Add :: "(string \<rightharpoonup> 'v) \<Rightarrow> go_error + 'a"
  Decode_Copy :: "(string \<rightharpoonup> 'v) \<Rightarrow> go_error + 'c"
  Decode_Run :: "(string \<rightharpoonup> 'v) \<Rightarrow> go_error + 'r"

text \<open>
  The loop over \<open>response.Command\<close>, lines 221 to 250: the error returned, and
  \<open>c.fetchedCommands\<close> and the arguments of \<open>t.Log\<close> at that moment.
\<close>

fun Commands_loop ::
  "('v, 'a, 'c, 'r) decode_lib \<Rightarrow> string list \<Rightarrow> ('a, 'c, 'r) VMInitSerializableCommand list
     \<Rightarrow> (string \<rightharpoonup> 'v) list
     \<Rightarrow> go_error option \<times> ('a, 'c, 'r) VMInitSerializableCommand list \<times> (string \<rightharpoonup> 'v) list" where
  "Commands_loop D [] fetchedCommands logged = (None, fetchedCommands, logged)"
| "Commands_loop D (cmd # rest) fetchedCommands logged =
     (case json_Unmarshal D cmd of
        Inl err \<Rightarrow> (Some err, fetchedCommands, logged)
      | Inr rawItem \<Rightarrow>
          (case rawItem ''OriginalCommand'' of
             None \<Rightarrow> Commands_loop D rest fetchedCommands logged
           | Some originalCommandString \<Rightarrow>
               if prefix ''ADD'' (Sprintf_s D originalCommandString) then
                 (case Decode_Add D rawItem of
                    Inl err \<Rightarrow>
                      (errors_Wrap (Some err) ''found ADD but did not deserialize'',
                       fetchedCommands, logged)
                  | Inr command \<Rightarrow>
                      Commands_loop D rest (fetchedCommands @ [Add command]) logged)
               else if prefix ''COPY'' (Sprintf_s D originalCommandString) then
                 (case Decode_Copy D rawItem of
                    Inl err \<Rightarrow>
                      (errors_Wrap (Some err) ''found COPY but did not deserialize'',
                       fetchedCommands, logged)
                  | Inr command \<Rightarrow>
                      Commands_loop D rest (fetchedCommands @ [Copy command]) logged)
               else if prefix ''RUN'' (Sprintf_s D originalCommandString) then
                 (case Decode_Run D rawItem of
                    Inl err \<Rightarrow>
                      (errors_Wrap (Some err) ''found RUN but did not deserialize'',
                       fetchedCommands, logged)
                  | Inr command \<Rightarrow>
                      Commands_loop D rest (fetchedCommands @ [Run command]) logged)
               else Commands_loop D rest fetchedCommands (logged @ [rawItem])))"

text \<open>\<open>Commands\<close> on the result of the call \<open>c.underlying.Commands\<close>.\<close>

definition Commands ::
  "('v, 'a, 'c, 'r) decode_lib \<Rightarrow> go_error + string list
     \<Rightarrow> go_error option \<times> ('a, 'c, 'r) VMInitSerializableCommand list \<times> (string \<rightharpoonup> 'v) list" where
  "Commands D response =
     (case response of
        Inl err \<Rightarrow> (Some err, [], [])
      | Inr command \<Rightarrow> Commands_loop D command [] [])"

section \<open>The client's calls on the service\<close>

text \<open>
  \<open>proto.RootfsServerClient\<close>, the generated client \<open>c.underlying\<close>: what each call returns
  (the error of a unary call, or \<open>Inl\<close> the error and \<open>Inr\<close> the reply of a call with one).
\<close>

record RootfsServerClient =
  rpc_Commands :: "go_error + string list"
  rpc_Resource :: "string \<Rightarrow> go_error + recv list"
  rpc_StdErr :: "string list \<Rightarrow> go_error option"
  rpc_StdOut :: "string list \<Rightarrow> go_error option"
  rpc_Abort :: "string \<Rightarrow> go_error option"
  rpc_Success :: "go_error option"
  rpc_Ping :: "go_error option"

text \<open>
  Modelled from the spec: the service and its transport are not among the sources. The
  spec has every call on a stopped transport surface an error to its caller ("after which
  every pending or future call against it must fail").
\<close>

definition stopped :: "RootfsServerClient \<Rightarrow> bool" where
  "stopped u \<longleftrightarrow>
     isl (rpc_Commands u) \<and> (\<forall>path. isl (rpc_Resource u path)) \<and>
     (\<forall>line. rpc_StdErr u line \<noteq> None) \<and> (\<forall>line. rpc_StdOut u line \<noteq> None) \<and>
     (\<forall>message. rpc_Abort u message \<noteq> None) \<and> rpc_Success u \<noteq> None \<and> rpc_Ping u \<noteq> None"

text \<open>
  The methods of \<open>testClient\<close>, lines 215 to 340: the error each returns (for \<open>Resource\<close>,
  \<open>Inl\<close> the error or \<open>Inr\<close> what its goroutine sends on the channel). \<open>Abort\<close> is given
  \<open>input.Error()\<close>.
\<close>

definition client_Commands :: "('v, 'a, 'c, 'r) decode_lib \<Rightarrow> RootfsServerClient \<Rightarrow> go_error option" where
  "client_Commands D u = fst (Commands D (rpc_Commands u))"

definition client_Resource ::
  "(byte list \<Rightarrow> byte list) \<Rightarrow> RootfsServerClient \<Rightarrow> string
     \<Rightarrow> go_error + chan_item list \<times> goroutine_end" where
  "client_Resource Sum256 u input =
     (case rpc_Resource u input of
        Inl err \<Rightarrow> Inl err
      | Inr stream \<Rightarrow> Inr (Resource Sum256 stream))"

definition client_StdErr :: "RootfsServerClient \<Rightarrow> string list \<Rightarrow> go_error option" where
  "client_StdErr u input = rpc_StdErr u input"

definition client_StdOut :: "RootfsServerClient \<Rightarrow> string list \<Rightarrow> go_error option" where
  "client_StdOut u input = rpc_StdOut u input"

definition client_Abort :: "RootfsServerClient \<Rightarrow> string \<Rightarrow> go_error option" where
  "client_Abort u input = rpc_Abort u input"

definition client_Success :: "RootfsServerClient \<Rightarrow> go_error option" where
  "client_Success u = rpc_Success u"

text \<open>
  Modelled from the spec: \<open>Ping\<close> of the client is called by the test and is not among the
  sources; as the liveness probe of the spec it returns the error of the call.
\<close>

definition client_Ping :: "RootfsServerClient \<Rightarrow> go_error option" where
  "client_Ping u = rpc_Ping u"

section \<open>Reading streams, and the stream the spec describes\<close>

text \<open>
  The payloads of the chunk frames of a stream, in order.
\<close>

fun chunk_payloads :: "ResourceChunk option list \<Rightarrow> byte list list" where
  "chunk_payloads [] = []"
| "chunk_payloads (Some (ResourceChunk_Chunk c) # sent) = Chunk c # chunk_payloads sent"
| "chunk_payloads (frame # sent) = chunk_payloads sent"

text \<open>
  What the claims say of a frame: of a header whether it is of a directory and its id, of
  a chunk its payload, checksum and id, of an entry end its id.
\<close>

datatype shape =
    header_of bool string
  | chunk_of "byte list" "byte list" string
  | entry_end string
  | stream_end
  | no_payload

fun shape_of :: "ResourceChunk option \<Rightarrow> shape" where
  "shape_of None = stream_end"
| "shape_of (Some (ResourceChunk_Header h)) = header_of (IsDir h) (Id h)"
| "shape_of (Some (ResourceChunk_Chunk c)) = chunk_of (Chunk c) (Checksum c) (chunk_Id c)"
| "shape_of (Some (ResourceChunk_Eof i)) = entry_end i"
| "shape_of (Some ResourceChunk_unset) = no_payload"

text \<open>
  The invariant of the data model on ids: every chunk and eof frame carries the id of the
  most recently opened header (\<open>opened\<close>, none before the first header).
\<close>

fun ids_follow_header :: "string option \<Rightarrow> ResourceChunk option list \<Rightarrow> bool" where
  "ids_follow_header opened [] = True"
| "ids_follow_header opened (Some (ResourceChunk_Header h) # sent) =
     ids_follow_header (Some (Id h)) sent"
| "ids_follow_header opened (Some (ResourceChunk_Chunk c) # sent) =
     (opened = Some (chunk_Id c) \<and> ids_follow_header opened sent)"
| "ids_follow_header opened (Some (ResourceChunk_Eof i) # sent) =
     (opened = Some i \<and> ids_follow_header opened sent)"
| "ids_follow_header opened (frame # sent) = ids_follow_header opened sent"

text \<open>
  A subtree of the filesystem that is read without a failure: a regular file with its mode
  and contents, a directory with its mode and entries by name. \<open>on_disk\<close> is what
  \<open>filepath.WalkDir\<close> meets for it: every \<open>Info\<close>, \<open>ReadDir\<close> and \<open>Open\<close> succeeds and
  every read is full.
\<close>

datatype entry = regular_file "32 word" "byte list" | directory "32 word" "(string \<times> entry) list"

fun on_disk :: "entry \<Rightarrow> fs_node"
and on_disk_entries :: "(string \<times> entry) list \<Rightarrow> (string \<times> fs_node) list" where
  "on_disk (regular_file mode bytes) = file_node (Inr mode) (File bytes [])"
| "on_disk (directory mode es) = dir_node (Inr mode) None (on_disk_entries es)"
| "on_disk_entries [] = []"
| "on_disk_entries ((name, e) # es) = (name, on_disk e) # on_disk_entries es"

text \<open>
  The number of filesystem entries of a subtree, and the length of its largest file.
\<close>

fun entries :: "entry \<Rightarrow> nat"
and entries_list :: "(string \<times> entry) list \<Rightarrow> nat" where
  "entries (regular_file mode bytes) = 1"
| "entries (directory mode es) = Suc (entries_list es)"
| "entries_list [] = 0"
| "entries_list ((name, e) # es) = entries e + entries_list es"

fun largest_file :: "entry \<Rightarrow> nat"
and largest_file_list :: "(string \<times> entry) list \<Rightarrow> nat" where
  "largest_file (regular_file mode bytes) = length bytes"
| "largest_file (directory mode es) = largest_file_list es"
| "largest_file_list [] = 0"
| "largest_file_list ((name, e) # es) = max (largest_file e) (largest_file_list es)"

text \<open>
  Reading up to \<open>n\<close> bytes at a time: the non-empty reads of a file, in order.
\<close>

fun chop :: "nat \<Rightarrow> 'a list \<Rightarrow> 'a list list" where
  "chop n xs = (if n = 0 \<or> xs = [] then [] else take n xs # chop n (drop n xs))"

text \<open>
  The stream of section 4.1 of the spec, written from its words: for a directory a header
  with \<open>isDir = true\<close> and a fresh id, immediately followed by the entry end of that id,
  then its entries; for a file a header with \<open>isDir = false\<close> and a fresh id, one chunk per
  non-empty read of at most \<open>n\<close> bytes with the hash of its payload as checksum, and the
  entry end. \<open>ids k\<close> is the k-th fresh id.
\<close>

fun spec_shapes ::
  "(byte list \<Rightarrow> byte list) \<Rightarrow> nat \<Rightarrow> (nat \<Rightarrow> string) \<Rightarrow> entry \<Rightarrow> nat \<Rightarrow> shape list"
and spec_shapes_entries ::
  "(byte list \<Rightarrow> byte list) \<Rightarrow> nat \<Rightarrow> (nat \<Rightarrow> string) \<Rightarrow> (string \<times> entry) list \<Rightarrow> nat
     \<Rightarrow> shape list" where
  "spec_shapes hash n ids (directory mode es) k =
     header_of True (ids k) # entry_end (ids k) # spec_shapes_entries hash n ids es (Suc k)"
| "spec_shapes hash n ids (regular_file mode bytes) k =
     header_of False (ids k) #
     map (\<lambda>payload. chunk_of payload (hash payload) (ids k)) (chop n bytes) @
     [entry_end (ids k)]"
| "spec_shapes_entries hash n ids [] k = []"
| "spec_shapes_entries hash n ids ((name, e) # es) k =
     spec_shapes hash n ids e k @ spec_shapes_entries hash n ids es (k + entries e)"

section \<open>Concrete inputs\<close>

text \<open>
  Inputs on which the definitions are evaluated. \<open>example_lib\<close> gives the library
  parameters values that compute: a join that puts a separator between its arguments, a
  checksum of one byte (the length of the payload), and the identifiers u, uu, uuu, ...
\<close>

definition example_lib :: go_lib where
  "example_lib =
     \<lparr> filepath_Join = (\<lambda>dir name. dir @ ''/'' @ name),
       sha256_Sum256 = (\<lambda>payload. [of_nat (length payload)]),
       uuid_NewV4 = (\<lambda>k. Some (replicate (Suc k) (CHR ''u''))) \<rparr>"

definition example_resource :: grpcDirectoryResource where
  "example_resource =
     \<lparr> resolved = ''/ctx/etc'', safeBufferSize = 2, drr_targetMode = 493,
       drr_sourcePath = ''etc'', drr_targetPath = ''/etc'', drr_targetWorkdir = ''/'',
       drr_targetUser = ''0:0'' \<rparr>"

definition example_decode_lib :: "(string, string, string, string) decode_lib" where
  "example_decode_lib =
     \<lparr> json_Unmarshal =
         (\<lambda>cmd. if cmd = [] then Inl (errorString ''unexpected end of JSON input'')
                else Inr [''OriginalCommand'' \<mapsto> cmd]),
       Sprintf_s = (\<lambda>v. v),
       Decode_Add = (\<lambda>rawItem. case rawItem ''OriginalCommand'' of
                      None \<Rightarrow> Inl (errorString ''no command'')
                    | Some v \<Rightarrow> if length v < 5 then Inl (errorString ''missing fields'') else Inr v),
       Decode_Copy = (\<lambda>rawItem. case rawItem ''OriginalCommand'' of
                      None \<Rightarrow> Inl (errorString ''no command'')
                    | Some v \<Rightarrow> if length v < 6 then Inl (errorString ''missing fields'') else Inr v),
       Decode_Run = (\<lambda>rawItem. case rawItem ''OriginalCommand'' of
                      None \<Rightarrow> Inl (errorString ''no command'')
                    | Some v \<Rightarrow> if length v < 5 then Inl (errorString ''missing fields'') else Inr v) \<rparr>"

definition example_stopped_client :: RootfsServerClient where
  "example_stopped_client =
     \<lparr> rpc_Commands = Inl (errorString ''transport is closing''),
       rpc_Resource = (\<lambda>path. Inl (errorString ''transport is closing'')),
       rpc_StdErr = (\<lambda>line. Some (errorString ''transport is closing'')),
       rpc_StdOut = (\<lambda>line. Some (errorString ''transport is closing'')),
       rpc_Abort = (\<lambda>message. Some (errorString ''transport is closing'')),
       rpc_Success = Some (errorString ''transport is closing''),
       rpc_Ping = Some (errorString ''transport is closing'') \<rparr>"

section \<open>Properties of the Resource Consumer\<close>

text \<open>
  C1 (the code departs from the claim). The claim: a chunk whose recomputed checksum differs
  from the declared one makes the consumer send a distinguished non-nil checksum-failure
  error, stop, and send no resource for the entry. The code wraps the error of \<open>Recv\<close>,
  which is nil at that point, and \<open>errors.Wrap\<close> of nil is nil: after a header, a chunk
  whose declared checksum is not the hash of its payload makes the consumer send the nil
  value, and nothing else, before it closes the channel.
\<close>

theorem C1_checksum_mismatch_sends_nil:
  "Resource Sum256
     [(Some (ResourceChunk_Header h), None),
      (Some (ResourceChunk_Chunk
         \<lparr>Chunk = payload, Checksum = 0 # Sum256 payload, chunk_Id = Id h\<rparr>), None)]
   = ([item_nil], chan_closed)"
  by (simp add: Resource_def)

lemma Resource_loop_with_id:
  "Resource_loop Sum256 cur (map (recv_with_id i) stream) = Resource_loop Sum256 cur stream"
proof (induction Sum256 cur stream rule: Resource_loop.induct)
  case (1 Sum256 currentResource)
  show ?case by simp
next
  case (2 Sum256 currentResource err rest)
  show ?case by simp
next
  case (3 Sum256 currentResource response err rest)
  show ?case by simp
next
  case (4 Sum256 currentResource response rest)
  then show ?case
    by (cases response) (simp_all add: new_resource_def split: option.splits)
qed

lemma Resource_loop_chunks:
  "Resource_loop Sum256 (Some r)
     (map (\<lambda>payload. (Some (chunk_frame Sum256 u payload), None)) ps @ stream) =
   Resource_loop Sum256 (Some (r\<lparr>contents := contents r @ concat ps\<rparr>)) stream"
  by (induction ps arbitrary: r) (simp_all add: chunk_frame_def)

lemma wire_chunks:
  "wire (map (\<lambda>payload. Some (chunk_frame Sum256 u payload)) ps @ sent) =
     map (\<lambda>payload. (Some (chunk_frame Sum256 u payload), None)) ps @ wire sent"
  by (induction ps) simp_all

lemma chunk_payloads_chunks:
  "chunk_payloads (map (\<lambda>payload. Some (chunk_frame Sum256 u payload)) ps @ sent) =
     ps @ chunk_payloads sent"
  by (induction ps) (simp_all add: chunk_frame_def)

lemma ucast_mode: "(ucast (ucast (mode AND 511 :: 32 word) :: 64 word) :: 32 word) = mode AND 511"
  by (rule ucast_up_ucast_id) (simp add: is_up)

section \<open>Properties of the Resource Producer\<close>

declare walkFn.simps [simp del]

declare chop.simps [simp del]

lemma File_Read_length:
  "File_Read reader n = ((bytes, err), reader') \<Longrightarrow> length bytes \<le> n"
  by (cases reader) (auto split: if_splits list.splits read_event.splits)

lemma read_loop_EOF:
  "File_Read reader (length buffer) = (([], Some io_EOF), reader') \<Longrightarrow>
     read_loop Sum256 late (Suc fuel) u reader buffer j =
       ([Some (ResourceChunk_Eof u)], returned None)"
  by (simp add: reader_Read_def)

lemma read_loop_received_first:
  assumes "File_Read reader (length buffer) = ((bytes, err), reader')"
    and "\<not> (bytes = [] \<and> err = Some io_EOF)" and "late j = 0"
  shows "read_loop Sum256 late (Suc fuel) u reader buffer j =
           (Some (chunk_frame Sum256 u bytes) #
              fst (read_loop Sum256 late fuel u reader' (bytes @ drop (length bytes) buffer) (Suc j)),
            snd (read_loop Sum256 late fuel u reader' (bytes @ drop (length bytes) buffer) (Suc j)))"
  using assms
  by (auto simp: reader_Read_def received_def chunk_frame_def split: prod.splits)

lemma read_loop_nothing_read:
  assumes "File_Read reader (length buffer) = (([], err), reader')" and "err \<noteq> Some io_EOF"
  shows "read_loop Sum256 late (Suc fuel) u reader buffer j =
           (Some (chunk_frame Sum256 u []) # fst (read_loop Sum256 late fuel u reader' buffer (Suc j)),
            snd (read_loop Sum256 late fuel u reader' buffer (Suc j)))"
  using assms
  by (auto simp: reader_Read_def received_def chunk_frame_def split: prod.splits)

lemma read_loop_nil_File:
  "read_loop Sum256 late fuel u nil_File buffer j =
     (replicate fuel (Some (chunk_frame Sum256 u [])), running)"
proof (induction fuel arbitrary: j)
  case 0
  show ?case by simp
next
  case (Suc fuel)
  have "File_Read nil_File (length buffer) = (([], Some os_ErrInvalid), nil_File)" by simp
  from read_loop_nothing_read [OF this, of Sum256 late fuel u j] Suc [of "Suc j"]
  show ?case by simp
qed

lemma read_loop_full:
  "length buffer = n \<Longrightarrow> 0 < n \<Longrightarrow> length rem < fuel \<Longrightarrow> \<forall>j. late j = 0 \<Longrightarrow>
     read_loop Sum256 late fuel u (File rem []) buffer j =
       (map (\<lambda>payload. Some (chunk_frame Sum256 u payload)) (chop n rem) @
          [Some (ResourceChunk_Eof u)],
        returned None)"
proof (induction fuel arbitrary: rem buffer j)
  case 0
  then show ?case by simp
next
  case (Suc fuel)
  show ?case
  proof (cases "rem = []")
    case True
    with Suc.prems have "File_Read (File rem []) (length buffer) = (([], Some io_EOF), File rem [])"
      by simp
    from read_loop_EOF [OF this] True Suc.prems(2) show ?thesis by (simp add: chop.simps)
  next
    case False
    let ?bytes = "take n rem"
    let ?buffer = "?bytes @ drop (length ?bytes) buffer"
    from False Suc.prems
    have r: "File_Read (File rem []) (length buffer) = ((?bytes, None), File (drop n rem) [])"
      by simp
    from False Suc.prems(2) have ne: "\<not> (?bytes = [] \<and> None = Some io_EOF)" by simp
    from Suc.prems have l: "late j = 0" by simp
    have b: "length ?buffer = n" using Suc.prems(1) by simp
    from Suc.prems False have f: "length (drop n rem) < fuel" by (cases rem) auto
    note ih = Suc.IH [OF b Suc.prems(2) f Suc.prems(4), of "Suc j"]
    from read_loop_received_first [where late = late and j = j, OF r ne l, of Sum256 fuel u] ih False
      Suc.prems(2)
    show ?thesis by (simp add: chop.simps [of n rem])
  qed
qed

lemma read_loop_File:
  "length buffer = n \<Longrightarrow> 0 < n \<Longrightarrow> length rem + length script < fuel \<Longrightarrow> \<forall>j. late j = 0 \<Longrightarrow>
     \<exists>ps. read_loop Sum256 late fuel u (File rem script) buffer j =
            (map (\<lambda>payload. Some (chunk_frame Sum256 u payload)) ps @ [Some (ResourceChunk_Eof u)],
             returned None) \<and>
          concat ps = rem"
proof (induction fuel arbitrary: rem script buffer j)
  case 0
  then show ?case by simp
next
  case (Suc fuel)
  note n = Suc.prems(2) and late = Suc.prems(4)
  from late have l: "late j = 0" by simp
  have step: "\<exists>ps. read_loop Sum256 late (Suc fuel) u (File rem script) buffer j =
            (map (\<lambda>payload. Some (chunk_frame Sum256 u payload)) ps @ [Some (ResourceChunk_Eof u)],
             returned None) \<and> concat ps = rem"
    if r: "File_Read (File rem script) (length buffer) = ((bytes, err), File rem' script')"
      and ne: "\<not> (bytes = [] \<and> err = Some io_EOF)"
      and rem: "bytes @ rem' = rem" and f: "length rem' + length script' < fuel"
    for bytes err rem' script'
  proof -
    from File_Read_length [OF r] Suc.prems(1)
    have b: "length (bytes @ drop (length bytes) buffer) = n" by simp
    from Suc.IH [OF b n f late, of "Suc j"] obtain ps where
      ps: "read_loop Sum256 late fuel u (File rem' script')
             (bytes @ drop (length bytes) buffer) (Suc j) =
            (map (\<lambda>payload. Some (chunk_frame Sum256 u payload)) ps @ [Some (ResourceChunk_Eof u)],
             returned None)" "concat ps = rem'" by blast
    from read_loop_received_first [where late = late and j = j, OF r ne l, of Sum256 fuel u] ps(1)
    have "read_loop Sum256 late (Suc fuel) u (File rem script) buffer j =
            (map (\<lambda>payload. Some (chunk_frame Sum256 u payload)) (bytes # ps) @
               [Some (ResourceChunk_Eof u)], returned None)"
      by simp
    moreover have "concat (bytes # ps) = rem" using ps(2) rem by simp
    ultimately show ?thesis by blast
  qed
  have eof: "\<exists>ps. read_loop Sum256 late (Suc fuel) u (File rem script) buffer j =
            (map (\<lambda>payload. Some (chunk_frame Sum256 u payload)) ps @ [Some (ResourceChunk_Eof u)],
             returned None) \<and> concat ps = rem"
    if r: "File_Read (File rem script) (length buffer) = (([], Some io_EOF), reader')"
      and rem: "rem = []" for reader'
  proof -
    from read_loop_EOF [OF r, of Sum256 late fuel u j] rem
    have "read_loop Sum256 late (Suc fuel) u (File rem script) buffer j =
            (map (\<lambda>payload. Some (chunk_frame Sum256 u payload)) [] @ [Some (ResourceChunk_Eof u)],
             returned None) \<and> concat ([] :: byte list list) = rem"
      by simp
    then show ?thesis by blast
  qed
  show ?case
  proof (cases script)
    case Nil
    show ?thesis
    proof (cases "rem = []")
      case True
      with Nil n Suc.prems(1) show ?thesis by (intro eof) simp_all
    next
      case False
      with n Suc.prems(3) have "length (drop n rem) + length ([] :: read_event list) < fuel"
        by (cases rem) auto
      with False Nil n Suc.prems(1) show ?thesis
        by (intro step [of "take n rem" None "drop n rem" "[]"]) simp_all
    qed
  next
    case (Cons ev script')
    show ?thesis
    proof (cases ev)
      case (fault e)
      with Cons n Suc.prems show ?thesis
        by (intro step [of "[]" "Some (PathError ''read'' e)" rem script']) auto
    next
      case (short k)
      show ?thesis
      proof (cases "rem = []")
        case True
        with Cons short n Suc.prems(1) show ?thesis by (intro eof) simp_all
      next
        case False
        with Cons Suc.prems(3)
        have "length (drop (min n (Suc k)) rem) + length script' < fuel" by simp
        with False Cons short n Suc.prems(1) show ?thesis
          by (intro step [of "take (min n (Suc k)) rem" None "drop (min n (Suc k)) rem" script'])
            simp_all
      qed
    qed
  qed
qed

lemma walkFn_directory:
  "uuid_NewV4 L k = Some u \<Longrightarrow>
     walkFn L drr late fuel path (dir_node (Inr mode) rderr ds) k =
       ([Some (header_frame L drr path mode True u), Some (ResourceChunk_Eof u)],
        Suc k, returned None)"
  by (simp add: walkFn.simps)

lemma walkFn_regular_file:
  "uuid_NewV4 L k = Some u \<Longrightarrow> 0 < safeBufferSize drr \<Longrightarrow> length bytes < fuel \<Longrightarrow>
   \<forall>j. late k j = 0 \<Longrightarrow>
     walkFn L drr late fuel path (file_node (Inr mode) (File bytes [])) k =
       (Some (header_frame L drr path mode False u) #
        map (\<lambda>payload. Some (chunk_frame (sha256_Sum256 L) u payload))
          (chop (nat (safeBufferSize drr)) bytes) @
        [Some (ResourceChunk_Eof u)], Suc k, returned None)"
  by (simp add: walkFn.simps read_loop_full [where n = "nat (safeBufferSize drr)"])

lemma walkDir_shapes:
  "0 < safeBufferSize drr \<Longrightarrow> \<forall>k. uuid_NewV4 L k = Some (ids k) \<Longrightarrow> \<forall>i j. late i j = 0 \<Longrightarrow>
   largest_file t < fuel \<Longrightarrow>
     \<exists>sent. walkDir L drr late fuel path (on_disk t) k = (sent, k + entries t, returned None) \<and>
       map shape_of sent = spec_shapes (sha256_Sum256 L) (nat (safeBufferSize drr)) ids t k"
  "0 < safeBufferSize drr \<Longrightarrow> \<forall>k. uuid_NewV4 L k = Some (ids k) \<Longrightarrow> \<forall>i j. late i j = 0 \<Longrightarrow>
   largest_file_list es < fuel \<Longrightarrow>
     \<exists>sent. walkDir_entries L drr late fuel path (on_disk_entries es) k =
         (sent, k + entries_list es, returned None) \<and>
       map shape_of sent =
         spec_shapes_entries (sha256_Sum256 L) (nat (safeBufferSize drr)) ids es k"
proof (induction t and es arbitrary: k path and k path rule: entries_entries_list.induct)
  case (1 mode bytes)
  then have u: "uuid_NewV4 L k = Some (ids k)" and l: "\<forall>j. late k j = 0"
    and f: "length bytes < fuel" by simp_all
  from walkFn_regular_file [where late = late, OF u "1.prems"(1) f l, of path mode] show ?case
    by (simp add: header_frame_def chunk_frame_def)
next
  case (2 mode es)
  then have u: "uuid_NewV4 L k = Some (ids k)" and f: "largest_file_list es < fuel" by simp_all
  from "2.IH" [OF "2.prems"(1) "2.prems"(2) "2.prems"(3) f, of path "Suc k"] obtain sent where
    e: "walkDir_entries L drr late fuel path (on_disk_entries es) (Suc k) =
          (sent, Suc k + entries_list es, returned None)"
    and s: "map shape_of sent =
          spec_shapes_entries (sha256_Sum256 L) (nat (safeBufferSize drr)) ids es (Suc k)"
    by blast
  from walkFn_directory [OF u, of drr late fuel path mode None "on_disk_entries es"] e s
  show ?case by (simp add: header_frame_def)
next
  case 3
  show ?case by simp
next
  case (4 name e es)
  then have f1: "largest_file e < fuel" and f2: "largest_file_list es < fuel" by simp_all
  from "4.IH"(1) [OF "4.prems"(1) "4.prems"(2) "4.prems"(3) f1, of "filepath_Join L path name" k]
  obtain sent1 where
    w: "walkDir L drr late fuel (filepath_Join L path name) (on_disk e) k =
          (sent1, k + entries e, returned None)"
    and s1: "map shape_of sent1 =
          spec_shapes (sha256_Sum256 L) (nat (safeBufferSize drr)) ids e k"
    by blast
  from "4.IH"(2) [OF "4.prems"(1) "4.prems"(2) "4.prems"(3) f2, of path "k + entries e"]
  obtain sent2 where
    r: "walkDir_entries L drr late fuel path (on_disk_entries es) (k + entries e) =
          (sent2, k + entries e + entries_list es, returned None)"
    and s2: "map shape_of sent2 =
          spec_shapes_entries (sha256_Sum256 L) (nat (safeBufferSize drr)) ids es (k + entries e)"
    by blast
  from w s1 r s2 show ?case by (simp add: add.assoc)
qed


lemma ids_follow_header_append:
  "ids_follow_header opened xs \<Longrightarrow> (\<forall>opened'. ids_follow_header opened' ys) \<Longrightarrow>
     ids_follow_header opened (xs @ ys)"
  by (induction opened xs rule: ids_follow_header.induct) simp_all

lemma ids_follow_header_read_loop:
  "read_loop Sum256 late fuel u reader buffer j = (sent, st) \<Longrightarrow> ids_follow_header (Some u) sent"
proof (induction fuel arbitrary: reader buffer j sent st)
  case 0
  then show ?case by simp
next
  case (Suc fuel)
  obtain readBytes err reader' buffer' where
    r: "reader_Read reader buffer = ((readBytes, err), reader', buffer')"
    by (metis prod.exhaust)
  obtain sent' st' where l: "read_loop Sum256 late fuel u reader' buffer' (Suc j) = (sent', st')"
    by (metis prod.exhaust)
  from Suc.IH [OF l] Suc.prems r l show ?case
    by (auto split: if_splits)
qed

lemma ids_follow_header_walkFn:
  "walkFn L drr late fuel path d ctr = (sent, ctr', st) \<Longrightarrow> ids_follow_header opened sent"
proof (cases d)
  case (file_node i reader)
  obtain sent' st' where
    l: "read_loop (sha256_Sum256 L) (late ctr) fuel (the (uuid_NewV4 L ctr)) reader
          (replicate (nat (safeBufferSize drr)) 0) 0 = (sent', st')"
    by (metis prod.exhaust)
  assume "walkFn L drr late fuel path d ctr = (sent, ctr', st)"
  with ids_follow_header_read_loop [OF l] l show ?thesis
    by (auto simp: walkFn.simps file_node header_frame_def split: sum.splits option.splits if_splits)
next
  case (dir_node i rderr ds)
  assume "walkFn L drr late fuel path d ctr = (sent, ctr', st)"
  then show ?thesis
    by (auto simp: walkFn.simps dir_node header_frame_def split: sum.splits option.splits)
qed

lemma ids_follow_header_walkDir:
  "walkDir L drr late fuel path d ctr = (sent, ctr', st) \<Longrightarrow> ids_follow_header opened sent"
  "walkDir_entries L drr late fuel path ds ctr = (sent, ctr', st) \<Longrightarrow> ids_follow_header opened sent"
proof (induction L drr late fuel path d ctr and L drr late fuel path ds ctr
    arbitrary: sent ctr' st opened and sent ctr' st opened
    rule: walkDir_walkDir_entries.induct)
  case (1 L drr late fuel path i f ctr)
  then show ?case by (simp add: ids_follow_header_walkFn)
next
  case (2 L drr late fuel path i rderr dirs ctr)
  let ?d = "dir_node i rderr dirs"
  obtain s0 c0 t0 where w0: "walkFn L drr late fuel path ?d ctr = (s0, c0, t0)"
    by (metis prod_cases3)
  have p0: "ids_follow_header opened s0"
    using ids_follow_header_walkFn [OF w0] .
  show ?case
  proof (cases "t0 = returned None")
    case False
    with "2.prems" w0 have "sent = s0"
      by (auto split: walk_status.splits option.splits)
    with p0 show ?thesis by simp
  next
    case t0: True
    show ?thesis
    proof (cases rderr)
      case None
      obtain s2 c2 t2 where e: "walkDir_entries L drr late fuel path dirs c0 = (s2, c2, t2)"
        by (metis prod_cases3)
      have p2: "\<forall>opened'. ids_follow_header opened' s2"
        using "2.IH"(1) w0 t0 None e by auto
      from "2.prems" w0 t0 None e have "sent = s0 @ s2" by simp
      with p0 p2 show ?thesis by (simp add: ids_follow_header_append)
    next
      case (Some err)
      obtain s1 c1 t1 where w1: "walkFn L drr late fuel path ?d c0 = (s1, c1, t1)"
        by (metis prod_cases3)
      have p1: "\<forall>opened'. ids_follow_header opened' s1"
        using ids_follow_header_walkFn [OF w1] by blast
      show ?thesis
      proof (cases "t1 = returned None")
        case False
        with "2.prems" w0 t0 Some w1 have "sent = s0 @ s1"
          by (auto split: walk_status.splits option.splits)
        with p0 p1 show ?thesis by (simp add: ids_follow_header_append)
      next
        case t1: True
        obtain s2 c2 t2 where e: "walkDir_entries L drr late fuel path dirs c1 = (s2, c2, t2)"
          by (metis prod_cases3)
        have p2: "\<forall>opened'. ids_follow_header opened' s2"
          using "2.IH"(2) [OF w0 [symmetric] refl t0 refl Some w1 [symmetric] refl t1 refl e]
          by blast
        from p1 p2 have p12: "\<forall>opened'. ids_follow_header opened' (s1 @ s2)"
          by (simp add: ids_follow_header_append)
        from "2.prems" w0 t0 Some w1 t1 e have "sent = s0 @ s1 @ s2" by simp
        with p0 p12 show ?thesis by (simp add: ids_follow_header_append)
      qed
    qed
  qed
next
  case (3 L drr late fuel path ctr)
  then show ?case by simp
next
  case (4 L drr late fuel path name d1 dirs ctr)
  obtain s1 c1 t1 where w: "walkDir L drr late fuel (filepath_Join L path name) d1 ctr = (s1, c1, t1)"
    by (metis prod_cases3)
  have p1: "ids_follow_header opened s1"
    using "4.IH"(1) [OF w] .
  show ?case
  proof (cases "t1 = returned None")
    case False
    with "4.prems" w have "sent = s1"
      by (auto split: walk_status.splits option.splits)
    with p1 show ?thesis by simp
  next
    case True
    obtain s2 c2 t2 where e: "walkDir_entries L drr late fuel path dirs c1 = (s2, c2, t2)"
      by (metis prod_cases3)
    have p2: "\<forall>opened'. ids_follow_header opened' s2"
      using "4.IH"(2) w True e by auto
    from "4.prems" w True e have "sent = s1 @ s2" by simp
    with p1 p2 show ?thesis by (simp add: ids_follow_header_append)
  qed
qed

lemma remainingPath_below_root:
  "remainingPath drr (resolved drr @ ''/'' @ rel) = rel"
  by (simp add: remainingPath_def TrimPrefix_def)

text \<open>
  C3 (the code departs from the claim). The claim: a file transferred through the pipeline
  arrives byte for byte, so a file of 10 MiB split into chunks of bounded size does. The
  code allocates one buffer per file, sends in each chunk frame the slice
  \<open>buffer[0:readBytes]\<close> of it, and reads again into the same buffer as soon as the frame is
  handed over. For a file of the three bytes h, i, ! and a buffer of two, with a receiver
  that reads the payload of a frame after the next read has written the buffer: the first
  chunk frame arrives with the bytes !, i under the checksum of h, i. The payloads received
  are not the file, and the consumer sends no resource with the contents of the file: on
  the checksum it sends nil and stops, and were the two hashes equal it would send a
  resource with the contents !, i, !.
\<close>

theorem C3_late_receiver_reads_overwritten_buffer:
  "walkFn (example_lib\<lparr>sha256_Sum256 := Sum256\<rparr>) example_resource (\<lambda>entry j. 2)
     (Suc (Suc (Suc fuel))) ''/ctx/etc/motd'' (file_node (Inr 420) (File [104, 105, 33] [])) 0 =
     ([Some (header_frame (example_lib\<lparr>sha256_Sum256 := Sum256\<rparr>) example_resource
               ''/ctx/etc/motd'' 420 False ''u''),
       Some (ResourceChunk_Chunk
               \<lparr>Chunk = [33, 105], Checksum = Sum256 [104, 105], chunk_Id = ''u''\<rparr>),
       Some (ResourceChunk_Chunk \<lparr>Chunk = [33], Checksum = Sum256 [33], chunk_Id = ''u''\<rparr>),
       Some (ResourceChunk_Eof ''u'')],
      Suc 0, returned None) \<and>
   Resource Sum256
     (wire (fst (walkFn (example_lib\<lparr>sha256_Sum256 := Sum256\<rparr>) example_resource (\<lambda>entry j. 2)
                   (Suc (Suc (Suc fuel))) ''/ctx/etc/motd''
                   (file_node (Inr 420) (File [104, 105, 33] [])) 0) @ [None])) =
     (if Sum256 [33, 105] = Sum256 [104, 105]
      then ([item_resource (Some
              \<lparr> contents = [33, 105, 33], isDir = False, sourcePath = ''etc/motd'',
                targetMode = 420, targetPath = ''/etc/motd'', targetUser = ''0:0'',
                targetWorkdir = ''/'' \<rparr>)], chan_closed)
      else ([item_nil], chan_closed))"
proof -
  let ?L = "example_lib\<lparr>sha256_Sum256 := Sum256\<rparr>"
  have b: "replicate (nat (safeBufferSize example_resource)) (0 :: byte) = [0, 0]"
    by (simp add: example_resource_def numeral_2_eq_2)
  have l: "read_loop Sum256 (\<lambda>j. 2) (Suc (Suc (Suc fuel))) ''u'' (File [104, 105, 33] []) [0, 0] 0 =
      ([Some (ResourceChunk_Chunk
               \<lparr>Chunk = [33, 105], Checksum = Sum256 [104, 105], chunk_Id = ''u''\<rparr>),
        Some (ResourceChunk_Chunk \<lparr>Chunk = [33], Checksum = Sum256 [33], chunk_Id = ''u''\<rparr>),
        Some (ResourceChunk_Eof ''u'')], returned None)"
    by (simp add: reader_Read_def received_def)
  have w: "walkFn ?L example_resource (\<lambda>entry j. 2)
     (Suc (Suc (Suc fuel))) ''/ctx/etc/motd'' (file_node (Inr 420) (File [104, 105, 33] [])) 0 =
     ([Some (header_frame ?L example_resource ''/ctx/etc/motd'' 420 False ''u''),
       Some (ResourceChunk_Chunk
               \<lparr>Chunk = [33, 105], Checksum = Sum256 [104, 105], chunk_Id = ''u''\<rparr>),
       Some (ResourceChunk_Chunk \<lparr>Chunk = [33], Checksum = Sum256 [33], chunk_Id = ''u''\<rparr>),
       Some (ResourceChunk_Eof ''u'')],
      Suc 0, returned None)"
  proof -
    have u: "uuid_NewV4 example_lib 0 = Some ''u''" by (simp add: example_lib_def)
    have n: "\<not> safeBufferSize example_resource < 0" by (simp add: example_resource_def)
    show ?thesis by (simp add: walkFn.simps u n b l del: read_loop.simps)
  qed
  have h: "header_frame ?L example_resource ''/ctx/etc/motd'' 420 False ''u'' =
      ResourceChunk_Header
        \<lparr>SourcePath = ''etc/motd'', TargetPath = ''/etc/motd'', FileMode = 420, IsDir = False,
         TargetUser = ''0:0'', TargetWorkdir = ''/'', Id = ''u''\<rparr>"
    by (simp add: header_frame_def example_lib_def example_resource_def remainingPath_def
        TrimPrefix_def)
  show ?thesis
    unfolding w by (simp add: h Resource_def new_resource_def)
qed

text \<open>
  What does hold of a file: when the receiver reads every payload before the next read,
  a file that opens is transferred whole, whatever the reads do on the way.
\<close>

lemma file_round_trip_received_first:
  assumes u: "uuid_NewV4 L ctr = Some u" and n: "0 < safeBufferSize drr"
    and fuel: "length bytes + length script < fuel" and late: "\<forall>j. late ctr j = 0"
  shows "\<exists>sent. walkFn L drr late fuel path (file_node (Inr mode) (File bytes script)) ctr =
             (sent, Suc ctr, returned None) \<and>
           concat (chunk_payloads sent) = bytes \<and>
           Resource (sha256_Sum256 L) (wire (sent @ [None])) =
             ([item_resource (Some
                 \<lparr> contents = bytes, isDir = False,
                   sourcePath = filepath_Join L (drr_sourcePath drr) (remainingPath drr path),
                   targetMode = mode AND 511,
                   targetPath = filepath_Join L (drr_targetPath drr) (remainingPath drr path),
                   targetUser = drr_targetUser drr, targetWorkdir = drr_targetWorkdir drr \<rparr>)],
              chan_closed)"
proof -
  let ?H = "sha256_Sum256 L"
  let ?buffer = "replicate (nat (safeBufferSize drr)) (0 :: byte)"
  have b: "length ?buffer = nat (safeBufferSize drr)" by simp
  from n have "0 < nat (safeBufferSize drr)" by simp
  from read_loop_File [where late = "late ctr", OF b this fuel late, of ?H u 0] obtain ps where
    ps: "read_loop ?H (late ctr) fuel u (File bytes script) ?buffer 0 =
            (map (\<lambda>payload. Some (chunk_frame ?H u payload)) ps @ [Some (ResourceChunk_Eof u)],
             returned None)" "concat ps = bytes" by blast
  let ?sent = "Some (header_frame L drr path mode False u) #
     map (\<lambda>payload. Some (chunk_frame ?H u payload)) ps @ [Some (ResourceChunk_Eof u)]"
  have w: "walkFn L drr late fuel path (file_node (Inr mode) (File bytes script)) ctr =
             (?sent, Suc ctr, returned None)"
    using u n ps(1) by (simp add: walkFn.simps)
  have p: "concat (chunk_payloads ?sent) = bytes"
    using ps(2) by (simp add: header_frame_def chunk_payloads_chunks)
  have r: "Resource ?H (wire (?sent @ [None])) =
             ([item_resource (Some
                 \<lparr> contents = bytes, isDir = False,
                   sourcePath = filepath_Join L (drr_sourcePath drr) (remainingPath drr path),
                   targetMode = mode AND 511,
                   targetPath = filepath_Join L (drr_targetPath drr) (remainingPath drr path),
                   targetUser = drr_targetUser drr, targetWorkdir = drr_targetWorkdir drr \<rparr>)],
              chan_closed)"
    using ps(2)
    by (simp add: Resource_def header_frame_def wire_chunks Resource_loop_chunks new_resource_def
        ucast_mode)
  from w p r show ?thesis by blast
qed

text \<open>
  C4, as the claim states it, fails: the consumer never reads an id. After the header of
  id a, a chunk of id b with the right checksum is appended to the entry of a, and the
  entry end of id c completes it; the stream is not rejected.
\<close>

theorem C4_other_ids_accepted_counterexample:
  "\<forall>Sum256. Resource Sum256
     [(Some (ResourceChunk_Header
         \<lparr>SourcePath = ''etc/motd'', TargetPath = ''/etc/motd'', FileMode = 420, IsDir = False,
          TargetUser = ''0:0'', TargetWorkdir = ''/'', Id = ''a''\<rparr>), None),
      (Some (ResourceChunk_Chunk
         \<lparr>Chunk = [104, 105], Checksum = Sum256 [104, 105], chunk_Id = ''b''\<rparr>), None),
      (Some (ResourceChunk_Eof ''c''), None)] =
     ([item_resource (Some
         \<lparr>contents = [104, 105], isDir = False, sourcePath = ''etc/motd'', targetMode = 420,
          targetPath = ''/etc/motd'', targetUser = ''0:0'', targetWorkdir = ''/''\<rparr>)],
      chan_closed)"
  by (simp add: Resource_def new_resource_def)

text \<open>
  C4, amended: the consumer applies every chunk and entry end to the current entry
  whatever its id, so what it sends does not depend on the ids of the frames (replacing
  every id by one and the same leaves its result unchanged); the invariant on ids holds of
  the streams the producer emits, where every chunk and entry end carries the id of the
  most recently sent header, whatever the filesystem does and however long the walk has
  run.
\<close>

theorem C4_ids_not_checked:
  "Resource Sum256 (map (recv_with_id i) stream) = Resource Sum256 stream \<and>
   ids_follow_header None (fst (WalkResource L drr late fuel root))"
proof
  show "Resource Sum256 (map (recv_with_id i) stream) = Resource Sum256 stream"
    by (simp add: Resource_def Resource_loop_with_id)
next
  show "ids_follow_header None (fst (WalkResource L drr late fuel root))"
  proof (cases root)
    case (Inl err)
    then show ?thesis by (simp add: WalkResource_def)
  next
    case (Inr d)
    obtain sent ctr st where w: "walkDir L drr late fuel (resolved drr) d 0 = (sent, ctr, st)"
      by (metis prod_cases3)
    have p: "ids_follow_header None sent"
      using ids_follow_header_walkDir(1) [OF w] .
    have q: "\<forall>opened. ids_follow_header opened [None]" by simp
    from p q have "ids_follow_header None (sent @ [None])"
      by (rule ids_follow_header_append)
    with p Inr w show ?thesis
      by (cases st) (simp_all add: WalkResource_def)
  qed
qed

text \<open>
  C5 (the code departs from the claim). The claim: on a read error that is not the end of
  the file, or a failure to open the file, the producer aborts the production of the entry
  and sends no further chunk frames for it. The code ignores the error of \<open>os.Open\<close> and
  tests a read only for end of file. For a file that fails to open every read returns
  \<open>os.ErrInvalid\<close> and the loop sends an empty chunk frame in every iteration, without
  end (\<open>fuel\<close> iterations give \<open>fuel\<close> chunk frames and the loop is still running); for a
  read that fails in an open file it sends an empty chunk frame and reads on.
\<close>

theorem C5_failed_open_keeps_sending_chunks:
  "walkFn (L\<lparr>uuid_NewV4 := \<lambda>k. Some u\<rparr>) (drr\<lparr>safeBufferSize := int n\<rparr>) late fuel path
     (file_node (Inr mode) nil_File) ctr =
     (Some (header_frame (L\<lparr>uuid_NewV4 := \<lambda>k. Some u\<rparr>) (drr\<lparr>safeBufferSize := int n\<rparr>)
        path mode False u) #
      replicate fuel (Some (chunk_frame (sha256_Sum256 L) u [])),
      Suc ctr, running) \<and>
   read_loop Sum256 late' (Suc fuel) u (File rem (fault e # script)) (b # buffer) j =
     (Some (chunk_frame Sum256 u []) #
        fst (read_loop Sum256 late' fuel u (File rem script) (b # buffer) (Suc j)),
      snd (read_loop Sum256 late' fuel u (File rem script) (b # buffer) (Suc j)))"
proof
  show "walkFn (L\<lparr>uuid_NewV4 := \<lambda>k. Some u\<rparr>) (drr\<lparr>safeBufferSize := int n\<rparr>) late fuel path
     (file_node (Inr mode) nil_File) ctr =
     (Some (header_frame (L\<lparr>uuid_NewV4 := \<lambda>k. Some u\<rparr>) (drr\<lparr>safeBufferSize := int n\<rparr>)
        path mode False u) #
      replicate fuel (Some (chunk_frame (sha256_Sum256 L) u [])),
      Suc ctr, running)"
    by (simp add: walkFn.simps read_loop_nil_File)
next
  have r: "File_Read (File rem (fault e # script)) (length (b # buffer)) =
      (([], Some (PathError ''read'' e)), File rem script)"
    by simp
  show "read_loop Sum256 late' (Suc fuel) u (File rem (fault e # script)) (b # buffer) j =
     (Some (chunk_frame Sum256 u []) #
        fst (read_loop Sum256 late' fuel u (File rem script) (b # buffer) (Suc j)),
      snd (read_loop Sum256 late' fuel u (File rem script) (b # buffer) (Suc j)))"
    by (rule read_loop_nothing_read [OF r]) simp
qed

text \<open>
  C6 (the code departs from the claim). The claim: the walk sends exactly one header and
  entry end per filesystem entry. \<open>filepath.WalkDir\<close> calls the callback a second time for
  a directory whose \<open>os.ReadDir\<close> failed, to report the error; the callback overwrites the
  error it is given with that of \<open>d.Info()\<close> and goes on as for a new entry. For a
  directory that cannot be read the walk sends two headers with \<open>isDir = true\<close>, each with
  an identifier of its own and each followed by its entry end, and then the nil sentinel.
\<close>

theorem C6_failed_ReadDir_sends_two_pairs:
  "map shape_of
     (fst (WalkResource (L\<lparr>uuid_NewV4 := \<lambda>k. Some (ids k)\<rparr>) drr late fuel
             (Inr (dir_node (Inr mode) (Some err) [])))) =
     [header_of True (ids 0), entry_end (ids 0),
      header_of True (ids (Suc 0)), entry_end (ids (Suc 0)), stream_end]"
  by (simp add: WalkResource_def walkFn.simps header_frame_def)

text \<open>
  What does hold of the walk: for a subtree that is read without a failure, with a positive
  buffer size, an identifier generator that does not fail, a receiver that reads every
  payload before the next read, and more iterations allowed to a read loop than the largest
  file has bytes, the walk sends the stream of the spec and then the nil sentinel, once,
  and returns.
\<close>

lemma walk_without_failure_sends_spec_shapes:
  assumes "0 < safeBufferSize drr" and "\<forall>k. uuid_NewV4 L k = Some (ids k)"
    and "\<forall>i j. late i j = 0" and "largest_file t < fuel"
  shows "snd (WalkResource L drr late fuel (Inr (on_disk t))) = returned None \<and>
         map shape_of (fst (WalkResource L drr late fuel (Inr (on_disk t)))) =
           spec_shapes (sha256_Sum256 L) (nat (safeBufferSize drr)) ids t 0 @ [stream_end]"
proof -
  from walkDir_shapes(1) [OF assms, of "resolved drr" 0] obtain sent where
    "walkDir L drr late fuel (resolved drr) (on_disk t) 0 = (sent, 0 + entries t, returned None)"
    and "map shape_of sent = spec_shapes (sha256_Sum256 L) (nat (safeBufferSize drr)) ids t 0"
    by blast
  then show ?thesis by (simp add: WalkResource_def)
qed

text \<open>
  C7. For every entry the walk visits (every call of the callback in which \<open>d.Info()\<close> and
  the identifier generator succeed), the first frame sent is the header of the entry; its
  source path is the join of the configured source path and the entry's path with the
  prefix \<open>drr.resolved\<close> and then one separator trimmed, and its target path the join of the
  configured target path and that same remainder. For an entry at \<open>rel\<close> below the walked
  root the remainder is \<open>rel\<close>, on both sides.
\<close>

theorem C7_header_paths:
  assumes "Info d = Inr mode" and "uuid_NewV4 L ctr = Some u"
  shows "\<exists>h sent. fst (walkFn L drr late fuel path d ctr) = Some (ResourceChunk_Header h) # sent \<and>
           SourcePath h = filepath_Join L (drr_sourcePath drr)
             (TrimPrefix (TrimPrefix path (resolved drr)) ''/'') \<and>
           TargetPath h = filepath_Join L (drr_targetPath drr)
             (TrimPrefix (TrimPrefix path (resolved drr)) ''/'') \<and>
           (\<forall>rel. path = resolved drr @ ''/'' @ rel \<longrightarrow>
              SourcePath h = filepath_Join L (drr_sourcePath drr) rel \<and>
              TargetPath h = filepath_Join L (drr_targetPath drr) rel)"
proof (cases d)
  case (file_node i reader)
  with assms show ?thesis
    using remainingPath_below_root [of drr]
    by (auto simp: walkFn.simps header_frame_def remainingPath_def split: prod.splits)
next
  case (dir_node i rderr ds)
  with assms show ?thesis
    using remainingPath_below_root [of drr]
    by (auto simp: walkFn.simps header_frame_def remainingPath_def)
qed

theorem C7_header_paths_witness:
  "\<exists>h sent. fst (walkFn example_lib example_resource (\<lambda>entry j. 0) 4 ''/ctx/etc/conf.d/empty''
                    (file_node (Inr 420) (File [] [])) 0) =
             Some (ResourceChunk_Header h) # sent \<and>
           SourcePath h = ''etc/conf.d/empty'' \<and> TargetPath h = ''/etc/conf.d/empty''"
proof -
  have i: "Info (file_node (Inr 420) (File [] [])) = Inr 420" by simp
  have u: "uuid_NewV4 example_lib 0 = Some ''u''" by (simp add: example_lib_def)
  from C7_header_paths [OF i u, of example_resource "\<lambda>entry j. 0" 4 "''/ctx/etc/conf.d/empty''"]
  obtain h sent where
    f: "fst (walkFn example_lib example_resource (\<lambda>entry j. 0) 4 ''/ctx/etc/conf.d/empty''
               (file_node (Inr 420) (File [] [])) 0) = Some (ResourceChunk_Header h) # sent"
    and s: "SourcePath h = filepath_Join example_lib (drr_sourcePath example_resource)
              (TrimPrefix (TrimPrefix ''/ctx/etc/conf.d/empty'' (resolved example_resource)) ''/'')"
    and t: "TargetPath h = filepath_Join example_lib (drr_targetPath example_resource)
              (TrimPrefix (TrimPrefix ''/ctx/etc/conf.d/empty'' (resolved example_resource)) ''/'')"
    by blast
  from s have s': "SourcePath h = ''etc/conf.d/empty''"
    by (simp add: example_lib_def example_resource_def TrimPrefix_def)
  from t have t': "TargetPath h = ''/etc/conf.d/empty''"
    by (simp add: example_lib_def example_resource_def TrimPrefix_def)
  from f s' t' show ?thesis by blast
qed

section \<open>Properties of the Session Orchestrator\<close>

lemma select_case_success:
  "select_case p0 e = selecting p1 \<Longrightarrow> success p1 = (success p0 \<or> e = OnSuccess)"
  by (cases e) (simp_all split: if_splits, auto)

lemma select_case_isAbortedClosed:
  "select_case p0 e = selecting p1 \<Longrightarrow>
     isAbortedClosed p1 = (isAbortedClosed p0 \<or> e = chanAborted)"
  by (cases e) (simp_all split: if_splits, auto)

lemma select_case_chanAborted_closed:
  "select_case p0 e = selecting p1 \<Longrightarrow>
     chanAborted_closed p1 = (chanAborted_closed p0 \<or> (\<exists>c. e = OnAbort c))"
  by (cases e) (simp_all split: if_splits, auto)

lemma select_case_stopRequests:
  "select_case p0 e = selecting p1 \<Longrightarrow>
     stopRequests p1 + (if success p0 then 1 else 0) + (if isAbortedClosed p0 then 1 else 0)
       = stopRequests p0 + (if success p1 then 1 else 0) + (if isAbortedClosed p1 then 1 else 0)"
  by (cases e) (simp_all split: if_splits, auto)

lemma select_case_abortError:
  "select_case p0 e = selecting p1 \<Longrightarrow>
     (case e of OnAbort c \<Rightarrow> \<not> chanAborted_closed p0 \<and> abortError p1 = c
      | _ \<Rightarrow> abortError p1 = abortError p0)"
  by (cases e) (simp_all split: if_splits, auto)

lemma select_case_closed_before:
  "select_case p0 e = selecting p1 \<Longrightarrow> isAbortedClosed p0 \<longrightarrow> chanAborted_closed p0 \<Longrightarrow>
     isAbortedClosed p1 \<longrightarrow> chanAborted_closed p1"
  by (cases e) (simp_all split: if_splits, auto)

lemma event_loop_Cons_selecting:
  "event_loop p0 (e # es) = selecting p \<Longrightarrow>
     \<exists>p1. select_case p0 e = selecting p1 \<and> event_loop p1 es = selecting p"
  by (cases "select_case p0 e") simp_all

lemma event_loop_flags:
  "event_loop p0 es = selecting p \<Longrightarrow>
     (success p \<longleftrightarrow> success p0 \<or> OnSuccess \<in> set es) \<and>
     (isAbortedClosed p \<longleftrightarrow> isAbortedClosed p0 \<or> chanAborted \<in> set es) \<and>
     (chanAborted_closed p \<longleftrightarrow> chanAborted_closed p0 \<or> (\<exists>c. OnAbort c \<in> set es))"
proof (induction es arbitrary: p0)
  case Nil
  then show ?case by simp
next
  case (Cons e es)
  from event_loop_Cons_selecting [OF Cons.prems]
  obtain p1 where s: "select_case p0 e = selecting p1" and l: "event_loop p1 es = selecting p"
    by blast
  show ?case
    using Cons.IH [OF l] select_case_success [OF s] select_case_isAbortedClosed [OF s]
      select_case_chanAborted_closed [OF s]
    by auto
qed

lemma event_loop_stopRequests:
  "event_loop p0 es = selecting p \<Longrightarrow>
     stopRequests p + (if success p0 then 1 else 0) + (if isAbortedClosed p0 then 1 else 0)
       = stopRequests p0 + (if success p then 1 else 0) + (if isAbortedClosed p then 1 else 0)"
proof (induction es arbitrary: p0)
  case Nil
  then show ?case by simp
next
  case (Cons e es)
  from event_loop_Cons_selecting [OF Cons.prems]
  obtain p1 where s: "select_case p0 e = selecting p1" and l: "event_loop p1 es = selecting p"
    by blast
  show ?case
    using Cons.IH [OF l] select_case_stopRequests [OF s]
    by linarith
qed

lemma event_loop_abortError_closed:
  "event_loop p0 es = selecting p \<Longrightarrow> chanAborted_closed p0 \<Longrightarrow>
     (\<forall>c. OnAbort c \<notin> set es) \<and> abortError p = abortError p0"
proof (induction es arbitrary: p0)
  case Nil
  then show ?case by simp
next
  case (Cons e es)
  from event_loop_Cons_selecting [OF Cons.prems(1)]
  obtain p1 where s: "select_case p0 e = selecting p1" and l: "event_loop p1 es = selecting p"
    by blast
  have c1: "chanAborted_closed p1"
    using select_case_chanAborted_closed [OF s] Cons.prems(2) by simp
  show ?case
    using Cons.IH [OF l c1] select_case_abortError [OF s] Cons.prems(2)
    by (cases e) auto
qed

lemma event_loop_abortError:
  "event_loop p0 es = selecting p \<Longrightarrow> OnAbort c \<in> set es \<Longrightarrow> abortError p = c"
proof (induction es arbitrary: p0)
  case Nil
  then show ?case by simp
next
  case (Cons e es)
  from event_loop_Cons_selecting [OF Cons.prems(1)]
  obtain p1 where s: "select_case p0 e = selecting p1" and l: "event_loop p1 es = selecting p"
    by blast
  show ?case
  proof (cases "e = OnAbort c")
    case True
    with select_case_abortError [OF s] have a: "abortError p1 = c" by simp
    from True select_case_chanAborted_closed [OF s] have "chanAborted_closed p1" by simp
    from event_loop_abortError_closed [OF l this] a show ?thesis by simp
  next
    case False
    with Cons.prems(2) have "OnAbort c \<in> set es" by simp
    from Cons.IH [OF l this] show ?thesis .
  qed
qed

lemma event_loop_closed_before:
  "event_loop p0 es = selecting p \<Longrightarrow> isAbortedClosed p0 \<longrightarrow> chanAborted_closed p0 \<Longrightarrow>
     isAbortedClosed p \<longrightarrow> chanAborted_closed p"
proof (induction es arbitrary: p0)
  case Nil
  then show ?case by simp
next
  case (Cons e es)
  from event_loop_Cons_selecting [OF Cons.prems(1)]
  obtain p1 where s: "select_case p0 e = selecting p1" and l: "event_loop p1 es = selecting p"
    by blast
  from Cons.IH [OF l select_case_closed_before [OF s Cons.prems(2)]] show ?case .
qed

text \<open>
  C2, as the claim states it, fails: after ready, an abort, the receive from the closed
  \<open>chanAborted\<close> and then a success leave the abort cause recorded and the success flag
  set, and two stop requests dispatched. The later success is not ignored.
\<close>

theorem C2_abort_then_success_counterexample:
  "Start (Inr ()) [OnAbort (Some (errorString ''boom'')), chanAborted, OnSuccess] =
     selecting (NewTestServer\<lparr>chanReady_closed := True,
       abortError := Some (errorString ''boom''), chanAborted_closed := True,
       isAbortedClosed := True, success := True, stopRequests := 2\<rparr>)"
  by (simp add: Start_def NewTestServer_def)

text \<open>
  C2, amended: abort and success are guarded by separate flags. For every sequence of
  events after ready that leaves the loop selecting (so without a crash), the success flag
  is set exactly when a success event occurred and the aborted flag exactly when the closed
  \<open>chanAborted\<close> was received, the recorded abort cause is that of the abort event, one stop
  request was dispatched for success and one for abort (at most two in total), and a
  further success event or a further receive from \<open>chanAborted\<close> changes nothing.
\<close>

theorem C2_stop_once_per_kind:
  "Start (Inr ()) es = selecting p \<Longrightarrow>
     (success p \<longleftrightarrow> OnSuccess \<in> set es) \<and>
     (isAbortedClosed p \<longleftrightarrow> chanAborted \<in> set es) \<and>
     (\<forall>c. OnAbort c \<in> set es \<longrightarrow> abortError p = c) \<and>
     stopRequests p = (if success p then 1 else 0) + (if isAbortedClosed p then 1 else 0) \<and>
     stopRequests p \<le> 2 \<and>
     (success p \<longrightarrow> select_case p OnSuccess = selecting p) \<and>
     (isAbortedClosed p \<longrightarrow> select_case p chanAborted = selecting p)"
proof -
  assume a: "Start (Inr ()) es = selecting p"
  let ?p0 = "NewTestServer\<lparr>chanReady_closed := True\<rparr>"
  from a have l: "event_loop ?p0 es = selecting p" by (simp add: Start_def)
  have i: "\<not> success ?p0" "\<not> isAbortedClosed ?p0" "stopRequests ?p0 = 0"
    by (simp_all add: NewTestServer_def)
  have f: "(success p \<longleftrightarrow> OnSuccess \<in> set es) \<and> (isAbortedClosed p \<longleftrightarrow> chanAborted \<in> set es)"
    using event_loop_flags [OF l] i by simp
  have s: "stopRequests p = (if success p then 1 else 0) + (if isAbortedClosed p then 1 else 0)"
    using event_loop_stopRequests [OF l] i by simp
  have c: "isAbortedClosed p \<longrightarrow> chanAborted_closed p"
    using event_loop_closed_before [OF l] i by simp
  have e: "\<forall>c. OnAbort c \<in> set es \<longrightarrow> abortError p = c"
    using event_loop_abortError [OF l] by blast
  have g: "success p \<longrightarrow> select_case p OnSuccess = selecting p" by simp
  have h: "isAbortedClosed p \<longrightarrow> select_case p chanAborted = selecting p" using c by simp
  have k: "stopRequests p \<le> 2" using s by simp
  from f e s k g h show ?thesis by blast
qed

theorem C2_stop_once_per_kind_witness:
  "Start (Inr ()) [OnStdout ''built'', OnSuccess, OnAbort None, OnSuccess, chanAborted, chanAborted] =
     selecting (NewTestServer\<lparr>chanReady_closed := True, stdOutOutput := [''built''],
       success := True, chanAborted_closed := True, isAbortedClosed := True,
       stopRequests := 2\<rparr>) \<and>
   stopRequests (NewTestServer\<lparr>chanReady_closed := True, stdOutOutput := [''built''],
       success := True, chanAborted_closed := True, isAbortedClosed := True,
       stopRequests := 2\<rparr>) = 2"
  using C2_stop_once_per_kind
    [of "[OnStdout ''built'', OnSuccess, OnAbort None, OnSuccess, chanAborted, chanAborted]"
      "NewTestServer\<lparr>chanReady_closed := True, stdOutOutput := [''built''],
         success := True, chanAborted_closed := True, isAbortedClosed := True,
         stopRequests := 2\<rparr>"]
  by (simp add: Start_def NewTestServer_def)

text \<open>
  C10 (the code departs from the claim). The claim: a second abort event after a first does
  not make the event loop panic. The abort case closes \<open>chanAborted\<close> without a guard, so
  the second abort event closes a closed channel: the loop panics, with the second cause
  already recorded.
\<close>

theorem C10_second_abort_panics:
  "Start (Inr ()) [OnAbort e1, OnAbort e2] =
     close_of_closed_channel
       (NewTestServer\<lparr>chanReady_closed := True, abortError := e2, chanAborted_closed := True\<rparr>)"
  by (simp add: Start_def NewTestServer_def)

section \<open>Properties of the Command Decoder\<close>

lemma Commands_loop_append:
  "Commands_loop D pre fetched0 logged0 = (None, fetched, logged) \<Longrightarrow>
     Commands_loop D (pre @ rest) fetched0 logged0 = Commands_loop D rest fetched logged"
proof (induction pre arbitrary: fetched0 logged0)
  case Nil
  then show ?case by simp
next
  case (Cons cmd pre)
  show ?case
  proof (cases "json_Unmarshal D cmd")
    case (Inl e)
    with Cons.prems show ?thesis by simp
  next
    case raw: (Inr rawItem)
    show ?thesis
    proof (cases "rawItem ''OriginalCommand''")
      case None
      with raw Cons.prems have "Commands_loop D pre fetched0 logged0 = (None, fetched, logged)"
        by simp
      from Cons.IH [OF this] raw None show ?thesis by simp
    next
      case orig: (Some v)
      consider (add) "prefix ''ADD'' (Sprintf_s D v)"
        | (copy) "\<not> prefix ''ADD'' (Sprintf_s D v)" "prefix ''COPY'' (Sprintf_s D v)"
        | (run) "\<not> prefix ''ADD'' (Sprintf_s D v)" "\<not> prefix ''COPY'' (Sprintf_s D v)"
            "prefix ''RUN'' (Sprintf_s D v)"
        | (other) "\<not> prefix ''ADD'' (Sprintf_s D v)" "\<not> prefix ''COPY'' (Sprintf_s D v)"
            "\<not> prefix ''RUN'' (Sprintf_s D v)"
        by blast
      then show ?thesis
      proof cases
        case add
        show ?thesis
        proof (cases "Decode_Add D rawItem")
          case (Inl e)
          with Cons.prems raw orig add show ?thesis by simp
        next
          case (Inr command)
          with Cons.prems raw orig add
          have "Commands_loop D pre (fetched0 @ [Add command]) logged0 = (None, fetched, logged)"
            by simp
          from Cons.IH [OF this] raw orig add Inr show ?thesis by simp
        qed
      next
        case copy
        show ?thesis
        proof (cases "Decode_Copy D rawItem")
          case (Inl e)
          with Cons.prems raw orig copy show ?thesis by simp
        next
          case (Inr command)
          with Cons.prems raw orig copy
          have "Commands_loop D pre (fetched0 @ [Copy command]) logged0 = (None, fetched, logged)"
            by simp
          from Cons.IH [OF this] raw orig copy Inr show ?thesis by simp
        qed
      next
        case run
        show ?thesis
        proof (cases "Decode_Run D rawItem")
          case (Inl e)
          with Cons.prems raw orig run show ?thesis by simp
        next
          case (Inr command)
          with Cons.prems raw orig run
          have "Commands_loop D pre (fetched0 @ [Run command]) logged0 = (None, fetched, logged)"
            by simp
          from Cons.IH [OF this] raw orig run Inr show ?thesis by simp
        qed
      next
        case other
        with Cons.prems raw orig
        have "Commands_loop D pre fetched0 (logged0 @ [rawItem]) = (None, fetched, logged)"
          by simp
        from Cons.IH [OF this] raw orig other show ?thesis by simp
      qed
    qed
  qed
qed

text \<open>
  C8. In every batch, at a record that parses and has an \<open>OriginalCommand\<close>, after records
  that were decoded without an error: when its text starts with none of ADD, COPY and RUN
  the record is logged and skipped, nothing is appended to the queue, and the result of the
  batch is that of the remaining records; when its text starts with ADD, COPY or RUN and
  the record does not decode onto that struct, the batch returns an error, which wraps the
  decode error of this record in a message that names its directive, and the rest of the
  batch is not looked at.
\<close>

theorem C8_unknown_skipped_malformed_fatal:
  assumes pre: "Commands_loop D pre [] [] = (None, fetched, logged)"
    and raw: "json_Unmarshal D cmd = Inr rawItem"
    and orig: "rawItem ''OriginalCommand'' = Some v"
  shows
    "(\<not> prefix ''ADD'' (Sprintf_s D v) \<and> \<not> prefix ''COPY'' (Sprintf_s D v) \<and>
      \<not> prefix ''RUN'' (Sprintf_s D v) \<longrightarrow>
        Commands D (Inr (pre @ cmd # rest)) = Commands_loop D rest fetched (logged @ [rawItem])) \<and>
     (prefix ''ADD'' (Sprintf_s D v) \<and> Decode_Add D rawItem = Inl err \<longrightarrow>
        Commands D (Inr (pre @ cmd # rest)) =
          (Some (withMessage err ''found ADD but did not deserialize''), fetched, logged)) \<and>
     (\<not> prefix ''ADD'' (Sprintf_s D v) \<and> prefix ''COPY'' (Sprintf_s D v) \<and>
      Decode_Copy D rawItem = Inl err \<longrightarrow>
        Commands D (Inr (pre @ cmd # rest)) =
          (Some (withMessage err ''found COPY but did not deserialize''), fetched, logged)) \<and>
     (\<not> prefix ''ADD'' (Sprintf_s D v) \<and> \<not> prefix ''COPY'' (Sprintf_s D v) \<and>
      prefix ''RUN'' (Sprintf_s D v) \<and> Decode_Run D rawItem = Inl err \<longrightarrow>
        Commands D (Inr (pre @ cmd # rest)) =
          (Some (withMessage err ''found RUN but did not deserialize''), fetched, logged))"
proof -
  have "Commands D (Inr (pre @ cmd # rest)) = Commands_loop D (cmd # rest) fetched logged"
    using Commands_loop_append [OF pre] by (simp add: Commands_def)
  with raw orig show ?thesis by simp
qed

theorem C8_unknown_skipped_malformed_fatal_witness:
  "Commands example_decode_lib (Inr [''RUN make'', ''EXPOSE 80'', ''COPY a b'']) =
     (None, [Run ''RUN make'', Copy ''COPY a b''], [[''OriginalCommand'' \<mapsto> ''EXPOSE 80'']]) \<and>
   Commands example_decode_lib (Inr [''RUN make'', ''ADD'', ''COPY a b'']) =
     (Some (withMessage (errorString ''missing fields'') ''found ADD but did not deserialize''),
      [Run ''RUN make''], [])"
proof -
  let ?D = example_decode_lib
  have pre: "Commands_loop ?D [''RUN make''] [] [] = (None, [Run ''RUN make''], [])"
    by (simp add: example_decode_lib_def)
  have raw1: "json_Unmarshal ?D ''EXPOSE 80'' = Inr [''OriginalCommand'' \<mapsto> ''EXPOSE 80'']"
    by (simp add: example_decode_lib_def)
  have raw2: "json_Unmarshal ?D ''ADD'' = Inr [''OriginalCommand'' \<mapsto> ''ADD'']"
    by (simp add: example_decode_lib_def)
  have orig1: "[''OriginalCommand'' \<mapsto> ''EXPOSE 80''] ''OriginalCommand'' = Some ''EXPOSE 80''"
    by simp
  have orig2: "[''OriginalCommand'' \<mapsto> ''ADD''] ''OriginalCommand'' = Some ''ADD''"
    by simp
  have rest: "Commands_loop ?D [''COPY a b''] [Run ''RUN make'']
                ([] @ [[''OriginalCommand'' \<mapsto> ''EXPOSE 80'']]) =
              (None, [Run ''RUN make'', Copy ''COPY a b''], [[''OriginalCommand'' \<mapsto> ''EXPOSE 80'']])"
    by (simp add: example_decode_lib_def)
  have s1: "Sprintf_s ?D ''EXPOSE 80'' = ''EXPOSE 80''" and s2: "Sprintf_s ?D ''ADD'' = ''ADD''"
    by (simp_all add: example_decode_lib_def)
  have d2: "Decode_Add ?D [''OriginalCommand'' \<mapsto> ''ADD''] = Inl (errorString ''missing fields'')"
    by (simp add: example_decode_lib_def)
  have n1: "\<not> prefix ''ADD'' (Sprintf_s ?D ''EXPOSE 80'') \<and>
            \<not> prefix ''COPY'' (Sprintf_s ?D ''EXPOSE 80'') \<and>
            \<not> prefix ''RUN'' (Sprintf_s ?D ''EXPOSE 80'')"
    by (simp add: s1)
  have n2: "prefix ''ADD'' (Sprintf_s ?D ''ADD'') \<and>
            Decode_Add ?D [''OriginalCommand'' \<mapsto> ''ADD''] = Inl (errorString ''missing fields'')"
    by (simp add: s2 d2)
  have "Commands ?D (Inr ([''RUN make''] @ ''EXPOSE 80'' # [''COPY a b''])) =
      Commands_loop ?D [''COPY a b''] [Run ''RUN make'']
        ([] @ [[''OriginalCommand'' \<mapsto> ''EXPOSE 80'']])"
    by (rule C8_unknown_skipped_malformed_fatal
        [OF pre raw1 orig1, THEN conjunct1, THEN mp, OF n1])
  with rest have a: "Commands ?D (Inr ([''RUN make''] @ ''EXPOSE 80'' # [''COPY a b''])) =
      (None, [Run ''RUN make'', Copy ''COPY a b''], [[''OriginalCommand'' \<mapsto> ''EXPOSE 80'']])"
    by (simp only:)
  have b: "Commands ?D (Inr ([''RUN make''] @ ''ADD'' # [''COPY a b''])) =
      (Some (withMessage (errorString ''missing fields'') ''found ADD but did not deserialize''),
       [Run ''RUN make''], [])"
    by (rule C8_unknown_skipped_malformed_fatal
        [OF pre raw2 orig2, THEN conjunct2, THEN conjunct1, THEN mp, OF n2])
  from a b show ?thesis by simp
qed

section \<open>Properties of the client on a stopped service\<close>

text \<open>
  C9. On a stopped service, where by the spec every call of the underlying client returns
  an error, each of \<open>Commands\<close>, \<open>Resource\<close>, \<open>StdOut\<close>, \<open>StdErr\<close>, \<open>Abort\<close>, \<open>Success\<close> and
  \<open>Ping\<close> of the client returns a non-nil error: every method hands on the error of its
  call, and \<open>Commands\<close> and \<open>Resource\<close> return before they decode or start to receive.
\<close>

theorem C9_stopped_service_fails_every_call:
  assumes "stopped u"
  shows "client_Commands D u \<noteq> None \<and> isl (client_Resource Sum256 u path) \<and>
         client_StdOut u out \<noteq> None \<and> client_StdErr u err \<noteq> None \<and>
         client_Abort u cause \<noteq> None \<and> client_Success u \<noteq> None \<and> client_Ping u \<noteq> None"
proof -
  from assms have "isl (rpc_Commands u)" by (simp add: stopped_def)
  then have c: "client_Commands D u \<noteq> None"
    by (cases "rpc_Commands u") (simp_all add: client_Commands_def Commands_def)
  from assms have "isl (rpc_Resource u path)" by (simp add: stopped_def)
  then have r: "isl (client_Resource Sum256 u path)"
    by (cases "rpc_Resource u path") (simp_all add: client_Resource_def)
  from assms c r show ?thesis
    by (simp add: stopped_def client_StdOut_def client_StdErr_def client_Abort_def
        client_Success_def client_Ping_def)
qed

theorem C9_stopped_service_fails_every_call_witness:
  "stopped example_stopped_client \<and>
   client_Commands example_decode_lib example_stopped_client =
     Some (errorString ''transport is closing'') \<and>
   client_Resource (sha256_Sum256 example_lib) example_stopped_client ''irrelevant'' =
     Inl (errorString ''transport is closing'') \<and>
   client_StdOut example_stopped_client [] = Some (errorString ''transport is closing'') \<and>
   client_StdErr example_stopped_client [] = Some (errorString ''transport is closing'') \<and>
   client_Abort example_stopped_client ''failed'' = Some (errorString ''transport is closing'') \<and>
   client_Success example_stopped_client = Some (errorString ''transport is closing'') \<and>
   client_Ping example_stopped_client = Some (errorString ''transport is closing'')"
proof -
  have s: "stopped example_stopped_client"
    by (simp add: stopped_def example_stopped_client_def)
  from C9_stopped_service_fails_every_call
    [OF s, of example_decode_lib "sha256_Sum256 example_lib" "''irrelevant''" "[]" "[]" "''failed''"] s
  show ?thesis
    by (simp add: example_stopped_client_def client_Commands_def Commands_def
        client_Resource_def client_StdOut_def client_StdErr_def client_Abort_def
        client_Success_def client_Ping_def)
qed

end
